theory Spec2Isabelle
  imports Main
begin

section \<open>helium-animated-pages: the selection and transition state machine\<close>

text \<open>
  The development embeds the class \<^verbatim>\<open>HeliumAnimatedPages\<close> of
  \<^verbatim>\<open>src/helium-animated-pages.js\<close>. Every method becomes a function on an explicit
  state; a \<^verbatim>\<open>throw\<close> (and a failing property read on \<^verbatim>\<open>null\<close> or
  \<^verbatim>\<open>undefined\<close>) becomes the outcome \<open>Threw\<close>, which carries the state reached
  at the point of the throw. A leading underscore of the source is written \<open>u_\<close>.
\<close>

subsection \<open>JavaScript values\<close>

text \<open>
  The values that \<^verbatim>\<open>next\<close> and \<^verbatim>\<open>_selected\<close> range over in the model:
  \<^verbatim>\<open>undefined\<close>, \<^verbatim>\<open>null\<close>, strings, integer-valued numbers and the number
  \<^verbatim>\<open>NaN\<close>. Other numbers, booleans and objects are not represented. An integer is
  converted to a string as its decimal numeral (as JavaScript does below \<^verbatim>\<open>1e21\<close>).
\<close>

datatype jsval = Undefined | Null | Str string | Num int | NaN

fun truthy :: "jsval \<Rightarrow> bool" where
  "truthy Undefined = False"
| "truthy Null = False"
| "truthy (Str k) = (k \<noteq> [])"
| "truthy (Num n) = (n \<noteq> 0)"
| "truthy NaN = False"

fun string_of_nat :: "nat \<Rightarrow> string" where
  "string_of_nat n =
     (if n < 10 then [''0123456789'' ! n]
      else string_of_nat (n div 10) @ [''0123456789'' ! (n mod 10)])"

declare string_of_nat.simps [simp del]

text \<open>The conversion a template literal \<^verbatim>\<open>`${v}`\<close> applies to a value.\<close>

fun template :: "jsval \<Rightarrow> string" where
  "template Undefined = ''undefined''"
| "template Null = ''null''"
| "template (Str k) = k"
| "template (Num n) = (if n < 0 then ''-'' @ string_of_nat (nat (- n)) else string_of_nat (nat n))"
| "template NaN = ''NaN''"

subsection \<open>The light DOM below the element\<close>

text \<open>
  Elements are identified by a \<open>node\<close>; \<^verbatim>\<open>===\<close> on elements is equality of nodes.
  \<open>pages\<close> is the forest of element nodes below the host: its roots are
  \<^verbatim>\<open>this.children\<close>, its preorder is the document order that
  \<^verbatim>\<open>this.querySelector\<close> searches. Attributes and class tokens of each element live
  in \<open>store\<close>; the \<^verbatim>\<open>class\<close> attribute is held as \<open>classList\<close> only.
  The selector \<^verbatim>\<open>[a="v"]\<close> is read as: the attribute \<open>a\<close> is present
  with the value \<open>v\<close> (the interpolated texts are taken to be an attribute name and a value
  without quote, backslash or line break); class names are taken to be valid tokens.
\<close>

type_synonym node = nat

datatype dom = Elem (ident: node) (kids: "dom list")

record element =
  attributes :: "string \<rightharpoonup> string"
  classList :: "string list"

text \<open>The two bound callbacks created in the constructor.\<close>

datatype handler = InAnimationBound | OutAnimationBound

text \<open>
  A transition rule \<^verbatim>\<open>{ in: ..., out: ... }\<close>. The rule table is read with
  \<^verbatim>\<open>in\<close> and by property access: as a map it holds every key for which
  \<^verbatim>\<open>in\<close> is true, and every value is taken to be a rule.
\<close>

record rule =
  in_class :: string
  out_class :: string

text \<open>
  \<open>listeners\<close> holds the registrations of the two callbacks for the
  \<^verbatim>\<open>_animationEvent\<close> event, as pairs of element and callback in registration order.
  \<^verbatim>\<open>undefined\<close> in a boolean field is \<open>False\<close>; \<^verbatim>\<open>undefined\<close> or
  \<^verbatim>\<open>null\<close> in an object field is \<open>None\<close>.
\<close>

record state =
  animationClasses :: "(string \<rightharpoonup> rule) option"
  attrForSelected :: "string option"
  pages :: "dom list"
  store :: "node \<Rightarrow> element"
  listeners :: "(node \<times> handler) list"
  u_selected :: jsval
  u_animating :: bool
  u_inAnimationEnded :: bool
  u_outAnimationEnded :: bool
  u_inPage :: "node option"
  u_outPage :: "node option"
  u_currentClasses :: "rule option"

datatype error =
    AnimationClassesUndefined  \<comment> \<open>\<^verbatim>\<open>animationClasses must be defined\<close>\<close>
  | AttrForSelectedUndefined   \<comment> \<open>\<^verbatim>\<open>attrForSelected must be defined if next is a string\<close>\<close>
  | NoPageFound                \<comment> \<open>\<^verbatim>\<open>No page found with ...\<close>\<close>
  | NextInvalid                \<comment> \<open>\<^verbatim>\<open>next must be a string or a positive integer\<close>\<close>
  | NoChildren                 \<comment> \<open>\<^verbatim>\<open>This component has no children to animate\<close>\<close>
  | TypeError                  \<comment> \<open>a property read on \<^verbatim>\<open>null\<close> or \<^verbatim>\<open>undefined\<close>\<close>

datatype outcome = Returned state | Threw error state

fun state_of :: "outcome \<Rightarrow> state" where
  "state_of (Returned s) = s"
| "state_of (Threw e s) = s"

fun threw :: "outcome \<Rightarrow> error option" where
  "threw (Returned s) = None"
| "threw (Threw e s) = Some e"

fun preorder :: "dom \<Rightarrow> node list" where
  "preorder (Elem n ks) = n # concat (map preorder ks)"

definition children :: "state \<Rightarrow> node list" where
  "children s = map ident (pages s)"

definition descendants :: "state \<Rightarrow> node list" where
  "descendants s = concat (map preorder (pages s))"

definition getAttribute :: "state \<Rightarrow> node \<Rightarrow> string \<Rightarrow> jsval" where
  "getAttribute s n a = (case attributes (store s n) a of None \<Rightarrow> Null | Some v \<Rightarrow> Str v)"

definition querySelector :: "state \<Rightarrow> string \<Rightarrow> string \<Rightarrow> node option" where
  "querySelector s a v = find (\<lambda>n. attributes (store s n) a = Some v) (descendants s)"

text \<open>
  \<^verbatim>\<open>this.children[k]\<close>: the element at an index. Keys that are not an index
  address the collection by element id or name; the model answers \<open>None\<close> for them,
  and \<open>selected_ok\<close> below marks the states in which the component reads no such key.
\<close>

definition children_at :: "state \<Rightarrow> jsval \<Rightarrow> node option" where
  "children_at s k =
     (case k of
        Num i \<Rightarrow> if 0 \<le> i \<and> nat i < length (children s) then Some (children s ! nat i) else None
      | _ \<Rightarrow> None)"

fun indexOf :: "node list \<Rightarrow> node option \<Rightarrow> int" where
  "indexOf [] x = - 1"
| "indexOf (y # ys) x =
     (if Some y = x then 0
      else (let i = indexOf ys x in if i < 0 then - 1 else i + 1))"

definition classList_add :: "node \<Rightarrow> string \<Rightarrow> state \<Rightarrow> state" where
  "classList_add n c s =
     s\<lparr>store := (store s)(n := (store s n)\<lparr>classList :=
        (if c \<in> set (classList (store s n)) then classList (store s n)
         else classList (store s n) @ [c])\<rparr>)\<rparr>"

definition classList_remove :: "node \<Rightarrow> string \<Rightarrow> state \<Rightarrow> state" where
  "classList_remove n c s =
     s\<lparr>store := (store s)(n := (store s n)\<lparr>classList := removeAll c (classList (store s n))\<rparr>)\<rparr>"

definition setAttribute :: "node \<Rightarrow> string \<Rightarrow> string \<Rightarrow> state \<Rightarrow> state" where
  "setAttribute n a v s =
     s\<lparr>store := (store s)(n := (store s n)\<lparr>attributes := (attributes (store s n))(a \<mapsto> v)\<rparr>)\<rparr>"

definition removeAttribute :: "node \<Rightarrow> string \<Rightarrow> state \<Rightarrow> state" where
  "removeAttribute n a s =
     s\<lparr>store := (store s)(n := (store s n)\<lparr>attributes := (attributes (store s n))(a := None)\<rparr>)\<rparr>"

definition addEventListener :: "node \<Rightarrow> handler \<Rightarrow> state \<Rightarrow> state" where
  "addEventListener n h s =
     (if (n, h) \<in> set (listeners s) then s else s\<lparr>listeners := listeners s @ [(n, h)]\<rparr>)"

definition removeEventListener :: "node \<Rightarrow> handler \<Rightarrow> state \<Rightarrow> state" where
  "removeEventListener n h s = s\<lparr>listeners := removeAll (n, h) (listeners s)\<rparr>"

subsection \<open>The element\<close>

text \<open>The element right after its constructor, over a given light DOM.\<close>

definition constructed :: "dom list \<Rightarrow> (node \<Rightarrow> element) \<Rightarrow> state" where
  "constructed ps st =
     \<lparr>animationClasses = None, attrForSelected = None, pages = ps, store = st,
      listeners = [], u_selected = Undefined, u_animating = False,
      u_inAnimationEnded = False, u_outAnimationEnded = False,
      u_inPage = None, u_outPage = None, u_currentClasses = None\<rparr>"

definition get_isAnimating :: "state \<Rightarrow> bool" where
  "get_isAnimating s = u_animating s"

definition get_selected :: "state \<Rightarrow> jsval" where
  "get_selected s = u_selected s"

text \<open>Truth value of \<^verbatim>\<open>this.attrForSelected\<close>: a non-empty string.\<close>

definition attr_set :: "state \<Rightarrow> bool" where
  "attr_set s = (case attrForSelected s of None \<Rightarrow> False | Some a \<Rightarrow> a \<noteq> [])"

definition attr_name :: "state \<Rightarrow> string" where
  "attr_name s = (case attrForSelected s of None \<Rightarrow> ''undefined'' | Some a \<Rightarrow> a)"

definition get_selectedItem :: "state \<Rightarrow> node option" where
  "get_selectedItem s =
     (if truthy (u_selected s) \<or> u_selected s = Num 0 then
        (if attr_set s then querySelector s (attr_name s) (template (u_selected s))
         else children_at s (u_selected s))
      else None)"

definition u_isStringMode :: "jsval \<Rightarrow> error + bool" where
  "u_isStringMode next =
     (case next of
        Str k \<Rightarrow> Inr True
      | Num n \<Rightarrow> if n \<ge> 0 then Inr False else Inl NextInvalid
      | _ \<Rightarrow> Inl NextInvalid)"

definition u_animationClasses :: "state \<Rightarrow> jsval \<Rightarrow> jsval \<Rightarrow> error + rule option" where
  "u_animationClasses s next prev =
     (let fullId = template prev @ ''_'' @ template next;
          toId = ''*_'' @ template next;
          fromId = template prev @ ''_*''
      in case animationClasses s of
           None \<Rightarrow> Inl TypeError
         | Some tbl \<Rightarrow>
             if fullId \<in> dom tbl then Inr (tbl fullId)
             else if toId \<in> dom tbl then Inr (tbl toId)
             else if fromId \<in> dom tbl then Inr (tbl fromId)
             else Inr (tbl ''default''))"

text \<open>The last two statements of \<^verbatim>\<open>_beginAnimation\<close>, on the inbound page.\<close>

definition u_beginAnimation_inbound :: "node \<Rightarrow> state \<Rightarrow> outcome" where
  "u_beginAnimation_inbound inP s =
     (case u_currentClasses s of
        None \<Rightarrow> Threw TypeError s
      | Some r \<Rightarrow> Returned (setAttribute inP ''active'' ''true'' (classList_add inP (in_class r) s)))"

definition u_beginAnimation :: "state \<Rightarrow> outcome" where
  "u_beginAnimation s0 =
     (let s1 = s0\<lparr>u_animating := True\<rparr> in
      case u_inPage s1 of
        None \<Rightarrow> Threw TypeError s1
      | Some inP \<Rightarrow>
          let s2 = addEventListener inP InAnimationBound s1 in
          (case u_outPage s2 of
             Some outP \<Rightarrow>
               let s3 = addEventListener outP OutAnimationBound s2 in
               (case u_currentClasses s3 of
                  None \<Rightarrow> Threw TypeError s3
                | Some r \<Rightarrow> u_beginAnimation_inbound inP (classList_add outP (out_class r) s3))
           | None \<Rightarrow> u_beginAnimation_inbound inP (s2\<lparr>u_outAnimationEnded := True\<rparr>)))"

text \<open>The value of \<^verbatim>\<open>prev\<close> in the setter (lines 170 to 173).\<close>

definition prev_id :: "state \<Rightarrow> bool \<Rightarrow> jsval" where
  "prev_id s stringMode =
     (case u_outPage s of
        None \<Rightarrow> Str ''''
      | Some outP \<Rightarrow>
          if stringMode then getAttribute s outP (attr_name s)
          else Num (indexOf (children s) (Some outP)))"

text \<open>The page looked up for \<^verbatim>\<open>next\<close> (lines 155 to 157).\<close>

definition resolve :: "state \<Rightarrow> bool \<Rightarrow> jsval \<Rightarrow> node option" where
  "resolve s stringMode next =
     (if stringMode then querySelector s (attr_name s) (template next)
      else children_at s next)"

definition set_selected :: "state \<Rightarrow> jsval \<Rightarrow> outcome" where
  "set_selected s next =
     (if animationClasses s = None then Threw AnimationClassesUndefined s
      else if u_animating s then Returned s
      else
        (case u_isStringMode next of
           Inl e \<Rightarrow> Threw e s
         | Inr stringMode \<Rightarrow>
            (if stringMode \<and> \<not> attr_set s then Threw AttrForSelectedUndefined s
             else
               (let s1 = s\<lparr>u_inPage := resolve s stringMode next\<rparr>;
                    s2 = s1\<lparr>u_outPage := get_selectedItem s1\<rparr>
                in (case u_inPage s2 of
                      None \<Rightarrow> Threw NoPageFound s2
                    | Some inP \<Rightarrow>
                       (if u_inPage s2 = u_outPage s2 then Returned s2
                        else
                          (let prev = prev_id s2 stringMode;
                               s3 = s2\<lparr>u_selected :=
                                      (if attr_set s2 then getAttribute s2 inP (attr_name s2)
                                       else next)\<rparr>
                           in (case u_animationClasses s3 next prev of
                                 Inl e \<Rightarrow> Threw e s3
                               | Inr r \<Rightarrow> u_beginAnimation (s3\<lparr>u_currentClasses := r\<rparr>)))))))))"

definition select :: "state \<Rightarrow> jsval \<Rightarrow> outcome" where
  "select s next = set_selected s next"

definition selectNext :: "state \<Rightarrow> outcome" where
  "selectNext s =
     (let cs = children s in
      if length cs = 0 then Threw NoChildren s
      else
        let selectedItem = get_selectedItem s;
            prevIndex = indexOf cs selectedItem;
            nextIndex = (if prevIndex + 1 \<ge> int (length cs) then 0 else prevIndex + 1)
        in set_selected s (Num nextIndex))"

definition selectPrevious :: "state \<Rightarrow> outcome" where
  "selectPrevious s =
     (let cs = children s in
      if length cs = 0 then Threw NoChildren s
      else
        let selectedItem = get_selectedItem s;
            prevIndex = indexOf cs selectedItem;
            nextIndex = (if prevIndex - 1 < 0 then int (length cs) - 1 else prevIndex - 1)
        in set_selected s (Num nextIndex))"

definition u_onAnimationEnd :: "state \<Rightarrow> outcome" where
  "u_onAnimationEnd s0 =
     (if u_inAnimationEnded s0 \<and> u_outAnimationEnded s0 then
        let s1 = s0\<lparr>u_inAnimationEnded := False, u_outAnimationEnded := False,
                    u_animating := False\<rparr>
        in case u_inPage s1 of
             None \<Rightarrow> Threw TypeError s1
           | Some inP \<Rightarrow>
               (case u_currentClasses s1 of
                  None \<Rightarrow> Threw TypeError s1
                | Some r \<Rightarrow>
                    let s2 = classList_remove inP (in_class r) s1;
                        s3 = (case u_outPage s2 of
                                Some outP \<Rightarrow>
                                  classList_remove outP (out_class r)
                                    (removeAttribute outP ''active'' s2)
                              | None \<Rightarrow> s2)
                    in Returned (s3\<lparr>u_inPage := None, u_outPage := None,
                                     u_currentClasses := None\<rparr>))
      else Returned s0)"

definition u_inAnimation :: "state \<Rightarrow> outcome" where
  "u_inAnimation s =
     (case u_inPage s of
        None \<Rightarrow> Threw TypeError s
      | Some inP \<Rightarrow>
          u_onAnimationEnd
            ((removeEventListener inP InAnimationBound s)\<lparr>u_inAnimationEnded := True\<rparr>))"

definition u_outAnimation :: "state \<Rightarrow> outcome" where
  "u_outAnimation s =
     (case u_outPage s of
        None \<Rightarrow> Threw TypeError s
      | Some outP \<Rightarrow>
          u_onAnimationEnd
            ((removeEventListener outP OutAnimationBound s)\<lparr>u_outAnimationEnded := True\<rparr>))"

subsection \<open>Delivery of the animation-finished event\<close>

text \<open>
  The event reaches an element (as its target, or bubbling through it): the callbacks
  registered on the element when delivery starts run in registration order, each one only
  if it is still registered when its turn comes. An exception thrown by a callback does
  not stop the delivery; the state it left is kept.
\<close>

fun invoke :: "handler \<Rightarrow> state \<Rightarrow> outcome" where
  "invoke InAnimationBound s = u_inAnimation s"
| "invoke OutAnimationBound s = u_outAnimation s"

definition fire :: "state \<Rightarrow> node \<Rightarrow> state" where
  "fire s x =
     fold (\<lambda>h s'. if (x, h) \<in> set (listeners s') then state_of (invoke h s') else s')
       (map snd (filter (\<lambda>l. fst l = x) (listeners s))) s"

definition fire_all :: "state \<Rightarrow> node list \<Rightarrow> state" where
  "fire_all s xs = foldl fire s xs"

subsection \<open>Sample instances\<close>

text \<open>
  The two elements of the demo pages: \<^verbatim>\<open>#noattr\<close> of
  \<^verbatim>\<open>src/demo/noattr-demo.js\<close> (two slides, selection by index) and
  \<^verbatim>\<open>#main\<close> of \<^verbatim>\<open>src/demo/demo-element.js\<close> (six pages, selection
  by the attribute \<^verbatim>\<open>name\<close>).
\<close>

definition blank :: element where
  "blank = \<lparr>attributes = Map.empty, classList = []\<rparr>"

definition named :: "string \<Rightarrow> element" where
  "named v = \<lparr>attributes = [''name'' \<mapsto> v], classList = []\<rparr>"

definition noattr_rules :: "string \<rightharpoonup> rule" where
  "noattr_rules =
     [''*_1'' \<mapsto> \<lparr>in_class = ''page-rotatePullRight'', out_class = ''page-rotatePushLeft''\<rparr>,
      ''*_0'' \<mapsto> \<lparr>in_class = ''page-rotatePullLeft'', out_class = ''page-rotatePushRight''\<rparr>]"

definition noattr_demo :: state where
  "noattr_demo =
     (constructed [Elem 0 [], Elem 1 []] (\<lambda>n. blank))\<lparr>animationClasses := Some noattr_rules\<rparr>"

definition fade :: rule where
  "fade = \<lparr>in_class = ''page-fadeIn'', out_class = ''page-fadeOut''\<rparr>"

definition main_rules :: "string \<rightharpoonup> rule" where
  "main_rules = [''default'' \<mapsto> fade]"

definition main_store :: "node \<Rightarrow> element" where
  "main_store =
     (\<lambda>n. blank)(0 := named ''noattr'', 1 := named ''prevnext'', 2 := named ''property'',
                  3 := named ''page1'', 4 := named ''page2'', 5 := named ''page3'')"

definition main_demo :: state where
  "main_demo =
     (constructed [Elem 0 [], Elem 1 [], Elem 2 [], Elem 3 [], Elem 4 [], Elem 5 []] main_store)
       \<lparr>animationClasses := Some main_rules, attrForSelected := Some ''name''\<rparr>"

text \<open>The rule \<^verbatim>\<open>_page1\<close> of the documentation of \<^verbatim>\<open>animationClasses\<close>.\<close>

definition intro_rules :: "string \<rightharpoonup> rule" where
  "intro_rules =
     main_rules(''_page1'' \<mapsto> \<lparr>in_class = ''page-moveIn'', out_class = ''page-moveOut''\<rparr>)"

definition intro_demo :: state where
  "intro_demo = main_demo\<lparr>animationClasses := Some intro_rules\<rparr>"




text \<open>\<^verbatim>\<open>#main\<close> while the first transition, into \<^verbatim>\<open>page1\<close>, is running, and
  after it has settled.\<close>

definition mid_animation :: state where
  "mid_animation = state_of (select main_demo (Str ''page1''))"

definition on_page1 :: state where
  "on_page1 = fire mid_animation 3"

text \<open>\<^verbatim>\<open>#main\<close> while the second transition, from \<^verbatim>\<open>page1\<close> to
  \<^verbatim>\<open>page2\<close>, is running.\<close>

definition to_page2 :: state where
  "to_page2 = state_of (select on_page1 (Str ''page2''))"

subsection \<open>Vocabulary of the claims\<close>

text \<open>What a caller can observe: the three getters, and the classes and attributes of
  every element.\<close>

definition observable :: "state \<Rightarrow> jsval \<times> node option \<times> bool \<times> (node \<Rightarrow> element)" where
  "observable s = (get_selected s, get_selectedItem s, get_isAnimating s, store s)"

text \<open>The call ended in one of the \<^verbatim>\<open>throw new Error(...)\<close> statements.\<close>

definition own_error :: "outcome \<Rightarrow> bool" where
  "own_error out = (case threw out of None \<Rightarrow> False | Some e \<Rightarrow> e \<noteq> TypeError)"

fun is_string :: "jsval \<Rightarrow> bool" where
  "is_string (Str k) = True"
| "is_string v = False"

fun is_index :: "jsval \<Rightarrow> bool" where
  "is_index (Num i) = (0 \<le> i)"
| "is_index v = False"



text \<open>
  The stored selection is read back through \<^verbatim>\<open>this.children[...]\<close> only as an
  index: it holds whenever \<^verbatim>\<open>attrForSelected\<close> has not been unset after a
  selection by attribute.
\<close>

definition selected_ok :: "state \<Rightarrow> bool" where
  "selected_ok s = (attr_set s \<or> \<not> truthy (u_selected s) \<or> is_index (u_selected s))"


text \<open>
  The element between transitions: no animation is running, both legs are marked as not
  ended, no callback is registered, and \<open>selected_ok\<close> holds. The element is in such a
  state after its constructor, and again after each transition has settled.
\<close>

definition at_rest :: "state \<Rightarrow> bool" where
  "at_rest s =
     (\<not> u_animating s \<and> \<not> u_inAnimationEnded s \<and> \<not> u_outAnimationEnded s \<and>
      listeners s = [] \<and> selected_ok s)"

text \<open>The event has reached the inbound page of the transition and its outbound page,
  if it has one.\<close>

definition all_fired :: "state \<Rightarrow> node list \<Rightarrow> bool" where
  "all_fired s xs =
     ((case u_inPage s of None \<Rightarrow> False | Some p \<Rightarrow> p \<in> set xs) \<and>
      (case u_outPage s of None \<Rightarrow> True | Some q \<Rightarrow> q \<in> set xs))"

subsection \<open>The states of a transition\<close>

text \<open>The state in which the setter calls \<^verbatim>\<open>_beginAnimation\<close>.\<close>

definition prepared :: "state \<Rightarrow> bool \<Rightarrow> jsval \<Rightarrow> node \<Rightarrow> rule option \<Rightarrow> state" where
  "prepared s m next p r =
     s\<lparr>u_inPage := Some p, u_outPage := get_selectedItem s,
       u_selected := (if attr_set s then getAttribute s p (attr_name s) else next),
       u_currentClasses := r\<rparr>"

text \<open>
  The control state right after \<^verbatim>\<open>_beginAnimation\<close> has returned, for the inbound page
  \<open>p\<close>, the outbound page \<open>q\<close> (if any) and the rule \<open>r\<close>.
\<close>

definition running :: "state \<Rightarrow> node \<Rightarrow> node option \<Rightarrow> rule \<Rightarrow> bool" where
  "running s p q r =
     (u_animating s \<and> u_inPage s = Some p \<and> u_outPage s = q \<and> u_currentClasses s = Some r \<and>
      \<not> u_inAnimationEnded s \<and> u_outAnimationEnded s = (q = None) \<and>
      listeners s =
        (p, InAnimationBound) # (case q of None \<Rightarrow> [] | Some q' \<Rightarrow> [(q', OutAnimationBound)]) \<and>
      q \<noteq> Some p)"

text \<open>The states the transition passes through: one leg ended, and settled.\<close>

definition in_done :: "state \<Rightarrow> node \<Rightarrow> state" where
  "in_done s p = (removeEventListener p InAnimationBound s)\<lparr>u_inAnimationEnded := True\<rparr>"

definition out_done :: "state \<Rightarrow> node \<Rightarrow> state" where
  "out_done s q = (removeEventListener q OutAnimationBound s)\<lparr>u_outAnimationEnded := True\<rparr>"

definition settled :: "state \<Rightarrow> node \<Rightarrow> node option \<Rightarrow> rule \<Rightarrow> state" where
  "settled s p q r =
     (let s2 = classList_remove p (in_class r) s;
          s3 = (case q of
                  Some q' \<Rightarrow> classList_remove q' (out_class r) (removeAttribute q' ''active'' s2)
                | None \<Rightarrow> s2)
      in s3\<lparr>u_inAnimationEnded := False, u_outAnimationEnded := False, u_animating := False,
            listeners := [], u_inPage := None, u_outPage := None, u_currentClasses := None\<rparr>)"

text \<open>The state of a running transition after the event has reached the elements \<open>xs\<close>.\<close>

definition progress :: "state \<Rightarrow> node \<Rightarrow> node option \<Rightarrow> rule \<Rightarrow> node list \<Rightarrow> state" where
  "progress s p q r xs =
     (case q of
        None \<Rightarrow> if p \<in> set xs then settled s p q r else s
      | Some q' \<Rightarrow>
          if p \<in> set xs then (if q' \<in> set xs then settled s p q r else in_done s p)
          else if q' \<in> set xs then out_done s q' else s)"

section \<open>Properties\<close>

subsection \<open>Reading the light DOM\<close>

text \<open>Reading the light DOM does not depend on the element's private fields.\<close>

lemma children_upd [simp]:
  "children (u_inPage_update f1 s) = children s"
  "children (u_outPage_update f2 s) = children s"
  "children (u_selected_update f3 s) = children s"
  "children (u_currentClasses_update f4 s) = children s"
  "children (u_animating_update f5 s) = children s"
  "children (u_inAnimationEnded_update f6 s) = children s"
  "children (u_outAnimationEnded_update f7 s) = children s"
  "children (listeners_update f8 s) = children s"
  "children (store_update f9 s) = children s"
  by (simp_all add: children_def)

lemma descendants_upd [simp]:
  "descendants (u_inPage_update f1 s) = descendants s"
  "descendants (u_outPage_update f2 s) = descendants s"
  "descendants (u_selected_update f3 s) = descendants s"
  "descendants (u_currentClasses_update f4 s) = descendants s"
  "descendants (u_animating_update f5 s) = descendants s"
  "descendants (u_inAnimationEnded_update f6 s) = descendants s"
  "descendants (u_outAnimationEnded_update f7 s) = descendants s"
  "descendants (listeners_update f8 s) = descendants s"
  "descendants (store_update f9 s) = descendants s"
  by (simp_all add: descendants_def)

lemma attr_set_upd [simp]:
  "attr_set (u_inPage_update f1 s) = attr_set s"
  "attr_set (u_outPage_update f2 s) = attr_set s"
  "attr_set (u_selected_update f3 s) = attr_set s"
  "attr_set (u_currentClasses_update f4 s) = attr_set s"
  "attr_set (u_animating_update f5 s) = attr_set s"
  "attr_set (u_inAnimationEnded_update f6 s) = attr_set s"
  "attr_set (u_outAnimationEnded_update f7 s) = attr_set s"
  "attr_set (listeners_update f8 s) = attr_set s"
  "attr_set (store_update f9 s) = attr_set s"
  by (simp_all add: attr_set_def)

lemma attr_name_upd [simp]:
  "attr_name (u_inPage_update f1 s) = attr_name s"
  "attr_name (u_outPage_update f2 s) = attr_name s"
  "attr_name (u_selected_update f3 s) = attr_name s"
  "attr_name (u_currentClasses_update f4 s) = attr_name s"
  "attr_name (u_animating_update f5 s) = attr_name s"
  "attr_name (u_inAnimationEnded_update f6 s) = attr_name s"
  "attr_name (u_outAnimationEnded_update f7 s) = attr_name s"
  "attr_name (listeners_update f8 s) = attr_name s"
  "attr_name (store_update f9 s) = attr_name s"
  by (simp_all add: attr_name_def)

lemma querySelector_upd [simp]:
  "querySelector (u_inPage_update f1 s) = querySelector s"
  "querySelector (u_outPage_update f2 s) = querySelector s"
  "querySelector (u_selected_update f3 s) = querySelector s"
  "querySelector (u_currentClasses_update f4 s) = querySelector s"
  "querySelector (u_animating_update f5 s) = querySelector s"
  "querySelector (u_inAnimationEnded_update f6 s) = querySelector s"
  "querySelector (u_outAnimationEnded_update f7 s) = querySelector s"
  "querySelector (listeners_update f8 s) = querySelector s"
  by (simp_all add: querySelector_def fun_eq_iff)

lemma getAttribute_upd [simp]:
  "getAttribute (u_inPage_update f1 s) = getAttribute s"
  "getAttribute (u_outPage_update f2 s) = getAttribute s"
  "getAttribute (u_selected_update f3 s) = getAttribute s"
  "getAttribute (u_currentClasses_update f4 s) = getAttribute s"
  "getAttribute (u_animating_update f5 s) = getAttribute s"
  "getAttribute (u_inAnimationEnded_update f6 s) = getAttribute s"
  "getAttribute (u_outAnimationEnded_update f7 s) = getAttribute s"
  "getAttribute (listeners_update f8 s) = getAttribute s"
  by (simp_all add: getAttribute_def fun_eq_iff)

lemma children_at_upd [simp]:
  "children_at (u_inPage_update f1 s) = children_at s"
  "children_at (u_outPage_update f2 s) = children_at s"
  "children_at (u_selected_update f3 s) = children_at s"
  "children_at (u_currentClasses_update f4 s) = children_at s"
  "children_at (u_animating_update f5 s) = children_at s"
  "children_at (u_inAnimationEnded_update f6 s) = children_at s"
  "children_at (u_outAnimationEnded_update f7 s) = children_at s"
  "children_at (listeners_update f8 s) = children_at s"
  "children_at (store_update f9 s) = children_at s"
  by (simp_all add: children_at_def fun_eq_iff split: jsval.splits)

lemma get_selectedItem_upd [simp]:
  "get_selectedItem (u_inPage_update f1 s) = get_selectedItem s"
  "get_selectedItem (u_outPage_update f2 s) = get_selectedItem s"
  "get_selectedItem (u_currentClasses_update f4 s) = get_selectedItem s"
  "get_selectedItem (u_animating_update f5 s) = get_selectedItem s"
  "get_selectedItem (u_inAnimationEnded_update f6 s) = get_selectedItem s"
  "get_selectedItem (u_outAnimationEnded_update f7 s) = get_selectedItem s"
  "get_selectedItem (listeners_update f8 s) = get_selectedItem s"
  by (simp_all add: get_selectedItem_def)

lemmas sample_defs = blank_def named_def noattr_rules_def noattr_demo_def fade_def
  main_rules_def main_store_def main_demo_def intro_rules_def intro_demo_def constructed_def

lemmas read_defs = attr_set_def attr_name_def children_def descendants_def getAttribute_def
  querySelector_def children_at_def get_selectedItem_def resolve_def u_isStringMode_def

subsection \<open>The rule matcher\<close>

text \<open>
  C1. The rule matcher returns the pair stored under \<^verbatim>\<open>prev_next\<close> when the table
  has that key; otherwise the pair under \<^verbatim>\<open>*_next\<close> when present; otherwise the
  pair under \<^verbatim>\<open>prev_*\<close> when present; otherwise the entry under
  \<^verbatim>\<open>default\<close>. When no page is selected (and \<open>selected_ok\<close> holds), the setter
  passes the empty string as \<^verbatim>\<open>prev\<close>, so that a key \<^verbatim>\<open>_next\<close> present
  in the table is the rule of the transition it starts.
\<close>

theorem animationClasses_priority:
  "animationClasses s = Some tbl \<Longrightarrow>
   (let fullId = template prev @ ''_'' @ template next;
        toId = ''*_'' @ template next;
        fromId = template prev @ ''_*''
    in (fullId \<in> dom tbl \<longrightarrow> u_animationClasses s next prev = Inr (tbl fullId)) \<and>
       (fullId \<notin> dom tbl \<and> toId \<in> dom tbl \<longrightarrow> u_animationClasses s next prev = Inr (tbl toId)) \<and>
       (fullId \<notin> dom tbl \<and> toId \<notin> dom tbl \<and> fromId \<in> dom tbl \<longrightarrow>
          u_animationClasses s next prev = Inr (tbl fromId)) \<and>
       (fullId \<notin> dom tbl \<and> toId \<notin> dom tbl \<and> fromId \<notin> dom tbl \<longrightarrow>
          u_animationClasses s next prev = Inr (tbl ''default''))) \<and>
   (\<not> u_animating s \<and> selected_ok s \<and> get_selectedItem s = None \<and>
    u_isStringMode next = Inr m \<and>
    (m \<longrightarrow> attr_set s) \<and> resolve s m next = Some p \<and> ''_'' @ template next \<in> dom tbl \<longrightarrow>
      threw (set_selected s next) = None \<and>
      u_currentClasses (state_of (set_selected s next)) = tbl (''_'' @ template next))"
proof (intro conjI impI)
  assume tbl: "animationClasses s = Some tbl"
  show "let fullId = template prev @ ''_'' @ template next;
        toId = ''*_'' @ template next;
        fromId = template prev @ ''_*''
    in (fullId \<in> dom tbl \<longrightarrow> u_animationClasses s next prev = Inr (tbl fullId)) \<and>
       (fullId \<notin> dom tbl \<and> toId \<in> dom tbl \<longrightarrow> u_animationClasses s next prev = Inr (tbl toId)) \<and>
       (fullId \<notin> dom tbl \<and> toId \<notin> dom tbl \<and> fromId \<in> dom tbl \<longrightarrow>
          u_animationClasses s next prev = Inr (tbl fromId)) \<and>
       (fullId \<notin> dom tbl \<and> toId \<notin> dom tbl \<and> fromId \<notin> dom tbl \<longrightarrow>
          u_animationClasses s next prev = Inr (tbl ''default''))"
    using tbl by (simp add: u_animationClasses_def Let_def)
next
  assume tbl: "animationClasses s = Some tbl"
  assume h: "\<not> u_animating s \<and> selected_ok s \<and> get_selectedItem s = None \<and>
    u_isStringMode next = Inr m \<and>
    (m \<longrightarrow> attr_set s) \<and> resolve s m next = Some p \<and> ''_'' @ template next \<in> dom tbl"
  then obtain r where r: "tbl (''_'' @ template next) = Some r" by auto
  from h have m: "m \<longrightarrow> attr_set s" by simp
  have "set_selected s next =
          Returned (setAttribute p ''active'' ''true'' (classList_add p (in_class r)
            (s\<lparr>u_inPage := Some p, u_outPage := None,
               u_selected := (if attr_set s then getAttribute s p (attr_name s) else next),
               u_currentClasses := Some r, u_animating := True,
               listeners := listeners (addEventListener p InAnimationBound s),
               u_outAnimationEnded := True\<rparr>)))"
    using tbl h r m
    by (auto simp add: set_selected_def Let_def prev_id_def u_animationClasses_def
        u_beginAnimation_def u_beginAnimation_inbound_def addEventListener_def
        classList_add_def setAttribute_def)
  then show "threw (set_selected s next) = None"
    and "u_currentClasses (state_of (set_selected s next)) = tbl (''_'' @ template next)"
    using r by (simp_all add: classList_add_def setAttribute_def)
qed

theorem animationClasses_priority_witness:
  "animationClasses intro_demo = Some intro_rules \<and>
   ''_page1'' \<in> dom intro_rules \<and>
   u_animationClasses intro_demo (Str ''page1'') (Str '''') = Inr (intro_rules ''_page1'') \<and>
   \<not> u_animating intro_demo \<and>
   selected_ok intro_demo \<and>
   get_selectedItem intro_demo = None \<and>
   u_isStringMode (Str ''page1'') = Inr True \<and>
   attr_set intro_demo \<and>
   resolve intro_demo True (Str ''page1'') = Some 3 \<and>
   threw (set_selected intro_demo (Str ''page1'')) = None \<and>
   u_currentClasses (state_of (set_selected intro_demo (Str ''page1''))) = intro_rules ''_page1''"
proof -
  have h: "animationClasses intro_demo = Some intro_rules"
    by (simp add: sample_defs)
  show ?thesis
    using animationClasses_priority [OF h, of "Str ''''" "Str ''page1''" True 3]
    by (simp add: sample_defs read_defs selected_ok_def)
qed

subsection \<open>The paths through the setter\<close>

lemma own_error_simps [simp]:
  "own_error (Returned s) = False"
  "own_error (Threw e s) = (e \<noteq> TypeError)"
  by (simp_all add: own_error_def)

lemma u_beginAnimation_inbound_not_own [simp]: "\<not> own_error (u_beginAnimation_inbound p s)"
  by (simp add: u_beginAnimation_inbound_def split: option.splits)

lemma u_beginAnimation_not_own [simp]: "\<not> own_error (u_beginAnimation s)"
  by (simp add: u_beginAnimation_def Let_def split: option.splits)

lemma u_isStringMode_cases:
  "u_isStringMode next = (if is_string next then Inr True
                          else if is_index next then Inr False else Inl NextInvalid)"
  by (cases "next") (simp_all add: u_isStringMode_def)

lemma observable_internal [simp]:
  "observable (s\<lparr>u_inPage := x, u_outPage := y\<rparr>) = observable s"
  by (simp add: observable_def get_selected_def get_isAnimating_def)

text \<open>One lemma for each way through the checks.\<close>

lemma set_selected_unset:
  "animationClasses s = None \<Longrightarrow> set_selected s next = Threw AnimationClassesUndefined s"
  by (simp add: set_selected_def)

lemma set_selected_animating:
  "animationClasses s = Some tbl \<Longrightarrow> u_animating s \<Longrightarrow> set_selected s next = Returned s"
  by (simp add: set_selected_def)

lemma set_selected_invalid:
  "animationClasses s = Some tbl \<Longrightarrow> \<not> u_animating s \<Longrightarrow> u_isStringMode next = Inl e \<Longrightarrow>
   set_selected s next = Threw e s"
  by (simp add: set_selected_def)

lemma set_selected_no_attr:
  "animationClasses s = Some tbl \<Longrightarrow> \<not> u_animating s \<Longrightarrow> u_isStringMode next = Inr True \<Longrightarrow>
   \<not> attr_set s \<Longrightarrow> set_selected s next = Threw AttrForSelectedUndefined s"
  by (simp add: set_selected_def)

lemma set_selected_no_page:
  "animationClasses s = Some tbl \<Longrightarrow> \<not> u_animating s \<Longrightarrow> u_isStringMode next = Inr m \<Longrightarrow>
   m \<longrightarrow> attr_set s \<Longrightarrow> resolve s m next = None \<Longrightarrow>
   set_selected s next = Threw NoPageFound (s\<lparr>u_inPage := None, u_outPage := get_selectedItem s\<rparr>)"
  by (simp add: set_selected_def Let_def)

lemma set_selected_same_page:
  "animationClasses s = Some tbl \<Longrightarrow> \<not> u_animating s \<Longrightarrow> u_isStringMode next = Inr m \<Longrightarrow>
   m \<longrightarrow> attr_set s \<Longrightarrow> resolve s m next = Some p \<Longrightarrow> get_selectedItem s = Some p \<Longrightarrow>
   set_selected s next = Returned (s\<lparr>u_inPage := Some p, u_outPage := Some p\<rparr>)"
  by (simp add: set_selected_def Let_def)

lemma set_selected_other_page:
  "animationClasses s = Some tbl \<Longrightarrow> \<not> u_animating s \<Longrightarrow> u_isStringMode next = Inr m \<Longrightarrow>
   m \<longrightarrow> attr_set s \<Longrightarrow> resolve s m next = Some p \<Longrightarrow> get_selectedItem s \<noteq> Some p \<Longrightarrow>
   u_animationClasses s next (prev_id (s\<lparr>u_outPage := get_selectedItem s\<rparr>) m) = Inr r \<Longrightarrow>
   set_selected s next = u_beginAnimation (prepared s m next p r)"
proof -
  assume a: "animationClasses s = Some tbl" "\<not> u_animating s" "u_isStringMode next = Inr m"
    "m \<longrightarrow> attr_set s" "resolve s m next = Some p" "get_selectedItem s \<noteq> Some p"
    "u_animationClasses s next (prev_id (s\<lparr>u_outPage := get_selectedItem s\<rparr>) m) = Inr r"
  have pr: "prev_id (s\<lparr>u_inPage := Some p, u_outPage := get_selectedItem s\<rparr>) m =
            prev_id (s\<lparr>u_outPage := get_selectedItem s\<rparr>) m"
    by (simp add: prev_id_def split: option.splits)
  have ac: "u_animationClasses (s\<lparr>u_inPage := Some p, u_outPage := get_selectedItem s,
              u_selected := v\<rparr>) next q = u_animationClasses s next q" for v q
    by (simp add: u_animationClasses_def)
  from a(6) have ne: "Some p \<noteq> get_selectedItem s" by auto
  show ?thesis
    using a(1-5) ne a(7) by (auto simp add: set_selected_def Let_def pr ac prepared_def)
qed

lemma u_animationClasses_total:
  "animationClasses s = Some tbl \<Longrightarrow> \<exists>r. u_animationClasses s next prev = Inr r"
  by (simp add: u_animationClasses_def Let_def)

lemma u_beginAnimation_inbound_ok:
  "u_currentClasses s = Some r \<Longrightarrow>
   u_beginAnimation_inbound p s =
     Returned (setAttribute p ''active'' ''true'' (classList_add p (in_class r) s))"
  by (simp add: u_beginAnimation_inbound_def)

lemma u_currentClasses_steps [simp]:
  "u_currentClasses (addEventListener n h s) = u_currentClasses s"
  "u_currentClasses (classList_add n c s) = u_currentClasses s"
  "u_currentClasses (classList_remove n c s) = u_currentClasses s"
  "u_currentClasses (setAttribute n a v s) = u_currentClasses s"
  "u_currentClasses (removeAttribute n a s) = u_currentClasses s"
  "u_currentClasses (removeEventListener n h s) = u_currentClasses s"
  by (simp_all add: addEventListener_def classList_add_def classList_remove_def
      setAttribute_def removeAttribute_def removeEventListener_def)

lemma u_outPage_steps [simp]:
  "u_outPage (addEventListener n h s) = u_outPage s"
  "u_outPage (classList_add n c s) = u_outPage s"
  "u_outPage (classList_remove n c s) = u_outPage s"
  "u_outPage (setAttribute n a v s) = u_outPage s"
  "u_outPage (removeAttribute n a s) = u_outPage s"
  "u_outPage (removeEventListener n h s) = u_outPage s"
  by (simp_all add: addEventListener_def classList_add_def classList_remove_def
      setAttribute_def removeAttribute_def removeEventListener_def)

lemma u_inPage_steps [simp]:
  "u_inPage (addEventListener n h s) = u_inPage s"
  "u_inPage (classList_add n c s) = u_inPage s"
  "u_inPage (classList_remove n c s) = u_inPage s"
  "u_inPage (setAttribute n a v s) = u_inPage s"
  "u_inPage (removeAttribute n a s) = u_inPage s"
  "u_inPage (removeEventListener n h s) = u_inPage s"
  by (simp_all add: addEventListener_def classList_add_def classList_remove_def
      setAttribute_def removeAttribute_def removeEventListener_def)

text \<open>\<^verbatim>\<open>_beginAnimation\<close> with a rule at hand, without and with an outbound page.\<close>

lemma u_beginAnimation_first:
  "u_inPage s = Some p \<Longrightarrow> u_outPage s = None \<Longrightarrow> u_currentClasses s = Some r \<Longrightarrow>
   u_beginAnimation s =
     Returned (setAttribute p ''active'' ''true'' (classList_add p (in_class r)
       ((addEventListener p InAnimationBound (s\<lparr>u_animating := True\<rparr>))
          \<lparr>u_outAnimationEnded := True\<rparr>)))"
  by (simp add: u_beginAnimation_def Let_def u_beginAnimation_inbound_ok)

lemma u_beginAnimation_both:
  "u_inPage s = Some p \<Longrightarrow> u_outPage s = Some q \<Longrightarrow> u_currentClasses s = Some r \<Longrightarrow>
   u_beginAnimation s =
     Returned (setAttribute p ''active'' ''true'' (classList_add p (in_class r)
       (classList_add q (out_class r)
         (addEventListener q OutAnimationBound
           (addEventListener p InAnimationBound (s\<lparr>u_animating := True\<rparr>))))))"
  by (simp add: u_beginAnimation_def Let_def u_beginAnimation_inbound_ok)


lemma prepared_fields [simp]:
  "u_inPage (prepared s m next p r) = Some p"
  "u_outPage (prepared s m next p r) = get_selectedItem s"
  "u_currentClasses (prepared s m next p r) = r"
  "u_animating (prepared s m next p r) = u_animating s"
  "listeners (prepared s m next p r) = listeners s"
  "store (prepared s m next p r) = store s"
  "u_inAnimationEnded (prepared s m next p r) = u_inAnimationEnded s"
  "u_outAnimationEnded (prepared s m next p r) = u_outAnimationEnded s"
  "u_selected (prepared s m next p r) =
     (if attr_set s then getAttribute s p (attr_name s) else next)"
  by (simp_all add: prepared_def)

subsection \<open>Errors of the setter\<close>




subsection \<open>Calls that change nothing\<close>

lemma mid_animation_eq:
  "mid_animation =
     main_demo\<lparr>u_inPage := Some 3, u_outPage := None, u_selected := Str ''page1'',
       u_currentClasses := Some fade, u_animating := True,
       listeners := [(3, InAnimationBound)], u_outAnimationEnded := True,
       store := main_store(3 := \<lparr>attributes = [''name'' \<mapsto> ''page1'', ''active'' \<mapsto> ''true''],
                               classList = [''page-fadeIn'']\<rparr>)\<rparr>"
  by (simp add: mid_animation_def select_def set_selected_def Let_def sample_defs read_defs
      prev_id_def u_animationClasses_def u_beginAnimation_def u_beginAnimation_inbound_def
      addEventListener_def classList_add_def setAttribute_def)

lemma on_page1_eq:
  "on_page1 =
     main_demo\<lparr>u_inPage := None, u_outPage := None, u_selected := Str ''page1'',
       u_currentClasses := None, u_animating := False,
       listeners := [], u_outAnimationEnded := False, u_inAnimationEnded := False,
       store := main_store(3 := \<lparr>attributes = [''name'' \<mapsto> ''page1'', ''active'' \<mapsto> ''true''],
                               classList = []\<rparr>)\<rparr>"
  by (simp add: on_page1_def mid_animation_eq fire_def u_inAnimation_def u_onAnimationEnd_def
      removeEventListener_def classList_remove_def Let_def sample_defs)

text \<open>
  C5. While an animation is running (and \<^verbatim>\<open>animationClasses\<close> is set), the setter
  returns the state as it is, for every \<^verbatim>\<open>next\<close>. When the page resolved for
  \<^verbatim>\<open>next\<close> is the selected item, the setter returns without throwing and leaves
  \<^verbatim>\<open>selected\<close>, \<^verbatim>\<open>selectedItem\<close>, \<^verbatim>\<open>isAnimating\<close>, the classes and
  attributes of every element and the registered listeners unchanged.
\<close>

theorem select_noop:
  "(animationClasses s = Some tbl \<and> u_animating s \<longrightarrow> select s next = Returned s) \<and>
   (animationClasses s = Some tbl \<and> \<not> u_animating s \<and> u_isStringMode next = Inr m \<and>
    (m \<longrightarrow> attr_set s) \<and> resolve s m next = Some p \<and> get_selectedItem s = Some p \<longrightarrow>
      threw (select s next) = None \<and>
      observable (state_of (select s next)) = observable s \<and>
      listeners (state_of (select s next)) = listeners s)"
proof (intro conjI impI)
  assume "animationClasses s = Some tbl \<and> u_animating s"
  then show "select s next = Returned s"
    by (simp add: select_def set_selected_animating)
next
  assume h: "animationClasses s = Some tbl \<and> \<not> u_animating s \<and> u_isStringMode next = Inr m \<and>
    (m \<longrightarrow> attr_set s) \<and> resolve s m next = Some p \<and> get_selectedItem s = Some p"
  then have eq: "select s next = Returned (s\<lparr>u_inPage := Some p, u_outPage := Some p\<rparr>)"
    by (simp add: select_def set_selected_same_page)
  show "threw (select s next) = None"
    and "observable (state_of (select s next)) = observable s"
    and "listeners (state_of (select s next)) = listeners s"
    by (simp_all add: eq)
qed

theorem select_noop_witness:
  "animationClasses mid_animation = Some main_rules \<and> u_animating mid_animation \<and>
   select mid_animation Undefined = Returned mid_animation \<and>
   animationClasses on_page1 = Some main_rules \<and> \<not> u_animating on_page1 \<and>
   u_isStringMode (Str ''page1'') = Inr True \<and> attr_set on_page1 \<and>
   resolve on_page1 True (Str ''page1'') = Some 3 \<and> get_selectedItem on_page1 = Some 3 \<and>
   threw (select on_page1 (Str ''page1'')) = None \<and>
   observable (state_of (select on_page1 (Str ''page1''))) = observable on_page1 \<and>
   listeners (state_of (select on_page1 (Str ''page1''))) = listeners on_page1"
  using select_noop [of mid_animation main_rules Undefined True 3]
    select_noop [of on_page1 main_rules "Str ''page1''" True 3]
  by (simp add: mid_animation_eq on_page1_eq sample_defs read_defs)

subsection \<open>The page selected\<close>

text \<open>The fields each operation on an element leaves alone.\<close>

lemma listener_steps [simp]:
  "pages (addEventListener n h s) = pages s"
  "attrForSelected (addEventListener n h s) = attrForSelected s"
  "animationClasses (addEventListener n h s) = animationClasses s"
  "u_selected (addEventListener n h s) = u_selected s"
  "store (addEventListener n h s) = store s"
  "u_animating (addEventListener n h s) = u_animating s"
  "u_inAnimationEnded (addEventListener n h s) = u_inAnimationEnded s"
  "u_outAnimationEnded (addEventListener n h s) = u_outAnimationEnded s"
  "pages (removeEventListener n h s) = pages s"
  "attrForSelected (removeEventListener n h s) = attrForSelected s"
  "animationClasses (removeEventListener n h s) = animationClasses s"
  "u_selected (removeEventListener n h s) = u_selected s"
  "store (removeEventListener n h s) = store s"
  "u_animating (removeEventListener n h s) = u_animating s"
  "u_inAnimationEnded (removeEventListener n h s) = u_inAnimationEnded s"
  "u_outAnimationEnded (removeEventListener n h s) = u_outAnimationEnded s"
  by (simp_all add: addEventListener_def removeEventListener_def)

lemma store_steps [simp]:
  "pages (classList_add n c s) = pages s"
  "attrForSelected (classList_add n c s) = attrForSelected s"
  "animationClasses (classList_add n c s) = animationClasses s"
  "u_selected (classList_add n c s) = u_selected s"
  "listeners (classList_add n c s) = listeners s"
  "u_animating (classList_add n c s) = u_animating s"
  "u_inAnimationEnded (classList_add n c s) = u_inAnimationEnded s"
  "u_outAnimationEnded (classList_add n c s) = u_outAnimationEnded s"
  "pages (classList_remove n c s) = pages s"
  "attrForSelected (classList_remove n c s) = attrForSelected s"
  "animationClasses (classList_remove n c s) = animationClasses s"
  "u_selected (classList_remove n c s) = u_selected s"
  "listeners (classList_remove n c s) = listeners s"
  "u_animating (classList_remove n c s) = u_animating s"
  "u_inAnimationEnded (classList_remove n c s) = u_inAnimationEnded s"
  "u_outAnimationEnded (classList_remove n c s) = u_outAnimationEnded s"
  "pages (setAttribute n a v s) = pages s"
  "attrForSelected (setAttribute n a v s) = attrForSelected s"
  "animationClasses (setAttribute n a v s) = animationClasses s"
  "u_selected (setAttribute n a v s) = u_selected s"
  "listeners (setAttribute n a v s) = listeners s"
  "u_animating (setAttribute n a v s) = u_animating s"
  "u_inAnimationEnded (setAttribute n a v s) = u_inAnimationEnded s"
  "u_outAnimationEnded (setAttribute n a v s) = u_outAnimationEnded s"
  "pages (removeAttribute n a s) = pages s"
  "attrForSelected (removeAttribute n a s) = attrForSelected s"
  "animationClasses (removeAttribute n a s) = animationClasses s"
  "u_selected (removeAttribute n a s) = u_selected s"
  "listeners (removeAttribute n a s) = listeners s"
  "u_animating (removeAttribute n a s) = u_animating s"
  "u_inAnimationEnded (removeAttribute n a s) = u_inAnimationEnded s"
  "u_outAnimationEnded (removeAttribute n a s) = u_outAnimationEnded s"
  by (simp_all add: classList_add_def classList_remove_def setAttribute_def removeAttribute_def)

lemma attributes_steps [simp]:
  "attributes (store (classList_add n c s) x) = attributes (store s x)"
  "attributes (store (classList_remove n c s) x) = attributes (store s x)"
  "attributes (store (setAttribute n a v s) x) =
     (if x = n then (attributes (store s x))(a \<mapsto> v) else attributes (store s x))"
  "attributes (store (removeAttribute n a s) x) =
     (if x = n then (attributes (store s x))(a := None) else attributes (store s x))"
  by (simp_all add: classList_add_def classList_remove_def setAttribute_def removeAttribute_def)

lemma classList_steps [simp]:
  "classList (store (classList_add n c s) x) =
     (if x = n then (if c \<in> set (classList (store s x)) then classList (store s x)
                     else classList (store s x) @ [c])
      else classList (store s x))"
  "classList (store (classList_remove n c s) x) =
     (if x = n then removeAll c (classList (store s x)) else classList (store s x))"
  "classList (store (setAttribute n a v s) x) = classList (store s x)"
  "classList (store (removeAttribute n a s) x) = classList (store s x)"
  by (simp_all add: classList_add_def classList_remove_def setAttribute_def removeAttribute_def)

text \<open>
  \<^verbatim>\<open>_beginAnimation\<close> either returns, as in \<open>u_beginAnimation_first\<close> and
  \<open>u_beginAnimation_both\<close>, or stops at a missing page or rule.
\<close>

lemma u_beginAnimation_no_page:
  "u_inPage s = None \<Longrightarrow> u_beginAnimation s = Threw TypeError (s\<lparr>u_animating := True\<rparr>)"
  by (simp add: u_beginAnimation_def Let_def)

lemma u_beginAnimation_no_rule_first:
  "u_inPage s = Some p \<Longrightarrow> u_outPage s = None \<Longrightarrow> u_currentClasses s = None \<Longrightarrow>
   u_beginAnimation s =
     Threw TypeError ((addEventListener p InAnimationBound (s\<lparr>u_animating := True\<rparr>))
       \<lparr>u_outAnimationEnded := True\<rparr>)"
  by (simp add: u_beginAnimation_def Let_def u_beginAnimation_inbound_def)

lemma u_beginAnimation_no_rule_both:
  "u_inPage s = Some p \<Longrightarrow> u_outPage s = Some q \<Longrightarrow> u_currentClasses s = None \<Longrightarrow>
   u_beginAnimation s =
     Threw TypeError (addEventListener q OutAnimationBound
       (addEventListener p InAnimationBound (s\<lparr>u_animating := True\<rparr>)))"
  by (simp add: u_beginAnimation_def Let_def)

lemma u_beginAnimation_cases:
  obtains "u_inPage s = None"
  | p where "u_inPage s = Some p" "u_outPage s = None" "u_currentClasses s = None"
  | p q where "u_inPage s = Some p" "u_outPage s = Some q" "u_currentClasses s = None"
  | p r where "u_inPage s = Some p" "u_outPage s = None" "u_currentClasses s = Some r"
  | p q r where "u_inPage s = Some p" "u_outPage s = Some q" "u_currentClasses s = Some r"
  by (cases "u_inPage s"; cases "u_outPage s"; cases "u_currentClasses s") auto

text \<open>What \<^verbatim>\<open>_beginAnimation\<close> leaves alone, whether it returns or throws.\<close>

lemma u_beginAnimation_keeps:
  "pages (state_of (u_beginAnimation s)) = pages s"
  "attrForSelected (state_of (u_beginAnimation s)) = attrForSelected s"
  "u_selected (state_of (u_beginAnimation s)) = u_selected s"
  "u_inPage (state_of (u_beginAnimation s)) = u_inPage s"
  "u_outPage (state_of (u_beginAnimation s)) = u_outPage s"
  by (cases s rule: u_beginAnimation_cases;
      simp add: u_beginAnimation_no_page u_beginAnimation_no_rule_first
        u_beginAnimation_no_rule_both u_beginAnimation_first u_beginAnimation_both)+









lemmas run_defs = select_def set_selected_def Let_def prev_id_def u_animationClasses_def
  u_beginAnimation_def u_beginAnimation_inbound_def addEventListener_def classList_add_def
  setAttribute_def string_of_nat.simps



subsection \<open>Next and previous page\<close>

lemma indexOf_None [simp]: "indexOf cs None = - 1"
  by (induction cs) simp_all

lemma indexOf_range: "- 1 \<le> indexOf cs x \<and> indexOf cs x < int (length cs)"
  by (induction cs) (auto simp add: Let_def)

lemma indexOf_absent: "x \<notin> set cs \<Longrightarrow> indexOf cs (Some x) = - 1"
  by (induction cs) (auto simp add: Let_def)

lemma indexOf_nth: "distinct cs \<Longrightarrow> i < length cs \<Longrightarrow> indexOf cs (Some (cs ! i)) = int i"
proof (induction cs arbitrary: i)
  case Nil
  then show ?case by simp
next
  case (Cons c cs)
  show ?case
  proof (cases i)
    case 0
    then show ?thesis by simp
  next
    case (Suc j)
    with Cons.prems have "j < length cs" "distinct cs" "cs ! j \<noteq> c"
      by auto
    with Cons.IH [of j] Suc show ?thesis
      by (auto simp add: Let_def)
  qed
qed

text \<open>
  C8. Without children both methods throw. Otherwise \<^verbatim>\<open>selectNext\<close> is
  \<^verbatim>\<open>select(i + 1)\<close> for the index \<open>i\<close> of the selected item among the children,
  and \<^verbatim>\<open>select(0)\<close> when that item is the last child or no item is selected;
  \<^verbatim>\<open>selectPrevious\<close> is \<^verbatim>\<open>select(i - 1)\<close>, and a selection of the last child
  when the selected item is the first child or no item is selected (no item being selected
  is read in a state with \<open>selected_ok\<close>).
\<close>

theorem selectNext_selectPrevious:
  "(children s = [] \<longrightarrow>
      selectNext s = Threw NoChildren s \<and> selectPrevious s = Threw NoChildren s) \<and>
   (children s \<noteq> [] \<and> selected_ok s \<and> get_selectedItem s = None \<longrightarrow>
      selectNext s = select s (Num 0) \<and>
      selectPrevious s = select s (Num (int (length (children s)) - 1))) \<and>
   (distinct (children s) \<and> i < length (children s) \<and>
    get_selectedItem s = Some (children s ! i) \<longrightarrow>
      selectNext s = select s (Num (if i + 1 = length (children s) then 0 else int i + 1)) \<and>
      selectPrevious s =
        select s (Num (if i = 0 then int (length (children s)) - 1 else int i - 1)))"
proof (intro conjI impI)
  assume "children s = []"
  then show "selectNext s = Threw NoChildren s" "selectPrevious s = Threw NoChildren s"
    by (simp_all add: selectNext_def selectPrevious_def)
next
  assume h: "children s \<noteq> [] \<and> selected_ok s \<and> get_selectedItem s = None"
  then have "0 < length (children s)" by simp
  with h show "selectNext s = select s (Num 0)"
    "selectPrevious s = select s (Num (int (length (children s)) - 1))"
    by (simp_all add: selectNext_def selectPrevious_def select_def Let_def)
next
  assume h: "distinct (children s) \<and> i < length (children s) \<and>
    get_selectedItem s = Some (children s ! i)"
  then have ix: "indexOf (children s) (Some (children s ! i)) = int i"
    by (simp add: indexOf_nth)
  from h have ne: "length (children s) \<noteq> 0" by auto
  show "selectNext s = select s (Num (if i + 1 = length (children s) then 0 else int i + 1))"
    using h ne by (auto simp add: selectNext_def select_def Let_def ix)
  show "selectPrevious s =
      select s (Num (if i = 0 then int (length (children s)) - 1 else int i - 1))"
    using h ne by (auto simp add: selectPrevious_def select_def Let_def ix)
qed

theorem selectNext_selectPrevious_witness:
  "children (constructed [] (\<lambda>n. blank)) = [] \<and>
   selectNext (constructed [] (\<lambda>n. blank)) = Threw NoChildren (constructed [] (\<lambda>n. blank)) \<and>
   selectPrevious (constructed [] (\<lambda>n. blank)) = Threw NoChildren (constructed [] (\<lambda>n. blank)) \<and>
   children main_demo \<noteq> [] \<and> selected_ok main_demo \<and> get_selectedItem main_demo = None \<and>
   selectNext main_demo = select main_demo (Num 0) \<and>
   selectPrevious main_demo = select main_demo (Num 5) \<and>
   distinct (children on_page1) \<and> 3 < length (children on_page1) \<and>
   get_selectedItem on_page1 = Some (children on_page1 ! 3) \<and>
   selectNext on_page1 = select on_page1 (Num 4) \<and>
   selectPrevious on_page1 = select on_page1 (Num 2)"
  using selectNext_selectPrevious [of "constructed [] (\<lambda>n. blank)" 0]
    selectNext_selectPrevious [of main_demo 0]
    selectNext_selectPrevious [of on_page1 3]
  by (simp add: on_page1_eq sample_defs read_defs selected_ok_def)

subsection \<open>A transition, from its start to its end\<close>

lemma fire_all_snoc: "fire_all s (xs @ [x]) = fire (fire_all s xs) x"
  by (simp add: fire_all_def)

lemma fire_no_listener: "x \<notin> fst ` set (listeners s) \<Longrightarrow> fire s x = s"
proof -
  assume "x \<notin> fst ` set (listeners s)"
  then have "filter (\<lambda>l. fst l = x) (listeners s) = []"
    by (auto simp add: filter_empty_conv)
  then show ?thesis by (simp add: fire_def)
qed

lemma fire_single:
  "filter (\<lambda>l. fst l = x) (listeners s) = [(x, h)] \<Longrightarrow> fire s x = state_of (invoke h s)"
proof -
  assume a: "filter (\<lambda>l. fst l = x) (listeners s) = [(x, h)]"
  then have "(x, h) \<in> set (filter (\<lambda>l. fst l = x) (listeners s))" by simp
  then have "(x, h) \<in> set (listeners s)" by simp
  with a show ?thesis by (simp add: fire_def)
qed

text \<open>Without an outbound page the inbound leg settles the transition.\<close>

lemma fire_running_first:
  assumes "running s p None r"
  shows "fire s x = (if x = p then settled s p None r else s)"
proof (cases "x = p")
  case True
  have "filter (\<lambda>l. fst l = p) (listeners s) = [(p, InAnimationBound)]"
    using assms by (simp add: running_def)
  then have "fire s p = state_of (u_inAnimation s)"
    by (simp add: fire_single)
  also have "\<dots> = settled s p None r"
    using assms
    by (simp add: running_def u_inAnimation_def u_onAnimationEnd_def Let_def settled_def
        removeEventListener_def classList_remove_def)
  finally show ?thesis using True by simp
next
  case False
  then have "x \<notin> fst ` set (listeners s)"
    using assms by (simp add: running_def)
  with False show ?thesis by (simp add: fire_no_listener)
qed

text \<open>With an outbound page each leg is recorded, and the second one settles.\<close>

lemma fire_running_both:
  assumes "running s p (Some q) r"
  shows "fire s x = (if x = p then in_done s p else if x = q then out_done s q else s)"
proof -
  have ne: "p \<noteq> q" using assms by (auto simp add: running_def)
  consider "x = p" | "x = q" "x \<noteq> p" | "x \<noteq> p" "x \<noteq> q" by blast
  then show ?thesis
  proof cases
    case 1
    have "filter (\<lambda>l. fst l = p) (listeners s) = [(p, InAnimationBound)]"
      using assms ne by (auto simp add: running_def)
    then have "fire s p = state_of (u_inAnimation s)"
      by (simp add: fire_single)
    also have "\<dots> = in_done s p"
      using assms
      by (simp add: running_def u_inAnimation_def u_onAnimationEnd_def in_done_def
          removeEventListener_def)
    finally show ?thesis using 1 by simp
  next
    case 2
    have "filter (\<lambda>l. fst l = q) (listeners s) = [(q, OutAnimationBound)]"
      using assms ne by (auto simp add: running_def)
    then have "fire s q = state_of (u_outAnimation s)"
      by (simp add: fire_single)
    also have "\<dots> = out_done s q"
      using assms
      by (simp add: running_def u_outAnimation_def u_onAnimationEnd_def out_done_def
          removeEventListener_def)
    finally show ?thesis using 2 by simp
  next
    case 3
    then have "x \<notin> fst ` set (listeners s)"
      using assms by (auto simp add: running_def)
    with 3 show ?thesis by (simp add: fire_no_listener)
  qed
qed

lemma fire_in_done:
  assumes "running s p (Some q) r"
  shows "fire (in_done s p) x = (if x = q then settled s p (Some q) r else in_done s p)"
proof (cases "x = q")
  case True
  have ne: "p \<noteq> q" using assms by (auto simp add: running_def)
  have l: "listeners (in_done s p) = [(q, OutAnimationBound)]"
    using assms ne by (auto simp add: running_def in_done_def removeEventListener_def)
  then have "fire (in_done s p) q = state_of (u_outAnimation (in_done s p))"
    by (simp add: fire_single)
  also have "\<dots> = settled s p (Some q) r"
    using assms ne
    by (simp add: running_def u_outAnimation_def u_onAnimationEnd_def in_done_def Let_def
        settled_def removeEventListener_def classList_remove_def removeAttribute_def)
  finally show ?thesis using True by simp
next
  case False
  have ne: "p \<noteq> q" using assms by (auto simp add: running_def)
  have "listeners (in_done s p) = [(q, OutAnimationBound)]"
    using assms ne by (auto simp add: running_def in_done_def removeEventListener_def)
  with False have "x \<notin> fst ` set (listeners (in_done s p))" by simp
  with False show ?thesis by (simp add: fire_no_listener)
qed

lemma fire_out_done:
  assumes "running s p (Some q) r"
  shows "fire (out_done s q) x = (if x = p then settled s p (Some q) r else out_done s q)"
proof (cases "x = p")
  case True
  have ne: "p \<noteq> q" using assms by (auto simp add: running_def)
  have l: "listeners (out_done s q) = [(p, InAnimationBound)]"
    using assms ne by (auto simp add: running_def out_done_def removeEventListener_def)
  then have "fire (out_done s q) p = state_of (u_inAnimation (out_done s q))"
    by (simp add: fire_single)
  also have "\<dots> = settled s p (Some q) r"
    using assms ne
    by (simp add: running_def u_inAnimation_def u_onAnimationEnd_def out_done_def Let_def
        settled_def removeEventListener_def classList_remove_def removeAttribute_def)
  finally show ?thesis using True by simp
next
  case False
  have ne: "p \<noteq> q" using assms by (auto simp add: running_def)
  have "listeners (out_done s q) = [(p, InAnimationBound)]"
    using assms ne by (auto simp add: running_def out_done_def removeEventListener_def)
  with False have "x \<notin> fst ` set (listeners (out_done s q))" by simp
  with False show ?thesis by (simp add: fire_no_listener)
qed

lemma fire_settled: "fire (settled s p q r) x = settled s p q r"
  by (rule fire_no_listener) (simp add: settled_def Let_def split: option.splits)

text \<open>Every delivery sequence leaves the transition in one of these states.\<close>

lemma fire_all_running:
  assumes "running s p q r"
  shows "fire_all s xs = progress s p q r xs"
proof (induction xs rule: rev_induct)
  case Nil
  show ?case by (simp add: fire_all_def progress_def split: option.splits)
next
  case (snoc x xs)
  show ?case
  proof (cases q)
    case None
    with assms have "running s p None r" by simp
    from fire_running_first [OF this] snoc None show ?thesis
      by (simp add: fire_all_snoc progress_def fire_settled)
  next
    case (Some q')
    with assms have run: "running s p (Some q') r" by simp
    then have ne: "p \<noteq> q'" by (auto simp add: running_def)
    note f = fire_running_both [OF run] fire_in_done [OF run] fire_out_done [OF run]
    have "fire_all s (xs @ [x]) = fire (progress s p q r xs) x"
      using snoc by (simp add: fire_all_snoc)
    also have "\<dots> = progress s p q r (xs @ [x])"
      using ne by (cases "x = p"; cases "x = q'"; simp add: progress_def Some f fire_settled)
    finally show ?thesis .
  qed
qed

text \<open>A call of the setter that starts a transition from rest leaves a running transition.\<close>

lemma running_first:
  assumes "at_rest s" "u_inPage s = Some p" "u_outPage s = None" "u_currentClasses s = Some r"
  shows "running (state_of (u_beginAnimation s)) p None r"
  using assms
  by (simp add: u_beginAnimation_first at_rest_def running_def addEventListener_def
      classList_add_def setAttribute_def)

lemma running_both:
  assumes "at_rest s" "u_inPage s = Some p" "u_outPage s = Some q" "u_currentClasses s = Some r"
    "p \<noteq> q"
  shows "running (state_of (u_beginAnimation s)) p (Some q) r"
  using assms
  by (simp add: u_beginAnimation_both at_rest_def running_def addEventListener_def
      classList_add_def setAttribute_def)

lemma at_rest_prepared: "at_rest s \<Longrightarrow> at_rest (prepared s m next p r) = selected_ok (prepared s m next p r)"
  by (simp add: at_rest_def)

lemma selected_ok_prepared:
  assumes "u_isStringMode next = Inr m" "m \<longrightarrow> attr_set s"
  shows "selected_ok (prepared s m next p r)"
proof (cases "attr_set s")
  case True
  then show ?thesis by (simp add: selected_ok_def prepared_def)
next
  case False
  with assms have "is_index next"
    by (cases "next") (auto simp add: u_isStringMode_def split: if_splits)
  with False show ?thesis by (simp add: selected_ok_def)
qed

lemma select_started:
  assumes "at_rest s0" "select s0 next = Returned s1" "u_animating s1"
  obtains p r where "running s1 p (get_selectedItem s0) r"
    and "resolve s0 (is_string next) next = Some p"
    and "u_animationClasses s0 next
           (prev_id (s0\<lparr>u_outPage := get_selectedItem s0\<rparr>) (is_string next)) = Inr (Some r)"
    and "s1 = state_of (u_beginAnimation (prepared s0 (is_string next) next p (Some r)))"
proof -
  from assms(1) have idle: "\<not> u_animating s0" by (simp add: at_rest_def)
  from assms(2) have ret: "set_selected s0 next = Returned s1" by (simp add: select_def)
  obtain tbl where tbl: "animationClasses s0 = Some tbl"
    using ret by (cases "animationClasses s0") (simp_all add: set_selected_unset)
  obtain m where mode: "u_isStringMode next = Inr m"
    using ret set_selected_invalid [OF tbl idle] by (cases "u_isStringMode next") auto
  then have m: "m = is_string next"
    by (auto simp add: u_isStringMode_cases split: if_splits)
  have ok: "m \<longrightarrow> attr_set s0"
    using ret set_selected_no_attr [OF tbl idle, of "next"] mode by auto
  obtain p where p: "resolve s0 m next = Some p"
    using ret set_selected_no_page [OF tbl idle mode ok] by (cases "resolve s0 m next") auto
  have other: "get_selectedItem s0 \<noteq> Some p"
  proof
    assume "get_selectedItem s0 = Some p"
    from set_selected_same_page [OF tbl idle mode ok p this] ret
    have "s1 = s0\<lparr>u_inPage := Some p, u_outPage := Some p\<rparr>" by simp
    with assms(3) idle show False by simp
  qed
  obtain ro where ro: "u_animationClasses s0 next
      (prev_id (s0\<lparr>u_outPage := get_selectedItem s0\<rparr>) m) = Inr ro"
    using u_animationClasses_total [OF tbl] by blast
  let ?s = "prepared s0 m next p ro"
  have eq: "set_selected s0 next = u_beginAnimation ?s"
    by (rule set_selected_other_page [OF tbl idle mode ok p other ro])
  have rest: "at_rest ?s"
    using assms(1) selected_ok_prepared [OF mode ok] by (simp add: at_rest_prepared)
  obtain r where r: "ro = Some r"
  proof (cases ro)
    case None
    then have "threw (u_beginAnimation ?s) = Some TypeError"
      by (cases "get_selectedItem s0")
        (simp_all add: u_beginAnimation_no_rule_first u_beginAnimation_no_rule_both)
    with ret eq show ?thesis by simp
  next
    case (Some r)
    with that show ?thesis by simp
  qed
  have s1: "s1 = state_of (u_beginAnimation ?s)"
    using ret eq by simp
  have "running s1 p (get_selectedItem s0) r"
  proof (cases "get_selectedItem s0")
    case None
    with running_first [OF rest, of p r] r show ?thesis
      by (simp add: s1)
  next
    case (Some q)
    with other have "p \<noteq> q" by auto
    with running_both [OF rest, of p q r] r Some show ?thesis
      by (simp add: s1)
  qed
  with p ro r s1 m that show ?thesis by simp
qed

lemma leg_done_fields [simp]:
  "store (in_done s p) = store s"
  "u_animating (in_done s p) = u_animating s"
  "listeners (in_done s p) = removeAll (p, InAnimationBound) (listeners s)"
  "store (out_done s q) = store s"
  "u_animating (out_done s q) = u_animating s"
  "listeners (out_done s q) = removeAll (q, OutAnimationBound) (listeners s)"
  by (simp_all add: in_done_def out_done_def removeEventListener_def)

lemma settled_fields [simp]:
  "u_animating (settled s p q r) = False"
  "listeners (settled s p q r) = []"
  by (simp_all add: settled_def Let_def split: option.splits)

lemma settled_inbound:
  "q \<noteq> Some p \<Longrightarrow>
   classList (store (settled s p q r) p) = removeAll (in_class r) (classList (store s p)) \<and>
   attributes (store (settled s p q r) p) = attributes (store s p)"
  by (cases q) (auto simp add: settled_def Let_def)

lemma settled_outbound:
  "q' \<noteq> p \<Longrightarrow>
   classList (store (settled s p (Some q') r) q') = removeAll (out_class r) (classList (store s q')) \<and>
   attributes (store (settled s p (Some q') r) q') = (attributes (store s q'))(''active'' := None)"
  by (simp add: settled_def Let_def classList_remove_def removeAttribute_def)

lemma settled_other:
  "n \<noteq> p \<Longrightarrow> q \<noteq> Some n \<Longrightarrow> store (settled s p q r) n = store s n"
  by (cases q) (auto simp add: settled_def Let_def classList_remove_def removeAttribute_def)

lemma progress_other:
  "n \<noteq> p \<Longrightarrow> q \<noteq> Some n \<Longrightarrow> store (progress s p q r xs) n = store s n"
  by (cases q) (simp_all add: progress_def settled_other)

text \<open>The classes and attributes \<^verbatim>\<open>_beginAnimation\<close> writes.\<close>

lemma begun_store:
  assumes "u_inPage s = Some p" "u_currentClasses s = Some r" "u_outPage s \<noteq> Some p"
  shows "in_class r \<in> set (classList (store (state_of (u_beginAnimation s)) p))"
    and "attributes (store (state_of (u_beginAnimation s)) p) ''active'' = Some ''true''"
    and "u_outPage s = Some q \<Longrightarrow>
           out_class r \<in> set (classList (store (state_of (u_beginAnimation s)) q))"
    and "n \<noteq> p \<Longrightarrow> u_outPage s \<noteq> Some n \<Longrightarrow>
           store (state_of (u_beginAnimation s)) n = store s n"
proof -
  show "in_class r \<in> set (classList (store (state_of (u_beginAnimation s)) p))"
    using assms by (cases "u_outPage s") (simp_all add: u_beginAnimation_first u_beginAnimation_both)
  show "attributes (store (state_of (u_beginAnimation s)) p) ''active'' = Some ''true''"
    using assms by (cases "u_outPage s") (simp_all add: u_beginAnimation_first u_beginAnimation_both)
  show "out_class r \<in> set (classList (store (state_of (u_beginAnimation s)) q))"
    if "u_outPage s = Some q"
    using assms that by (auto simp add: u_beginAnimation_both)
  show "store (state_of (u_beginAnimation s)) n = store s n"
    if "n \<noteq> p" "u_outPage s \<noteq> Some n"
    using assms that
    by (cases "u_outPage s")
      (simp_all add: u_beginAnimation_first u_beginAnimation_both setAttribute_def
        classList_add_def addEventListener_def)
qed

lemma begun_classes:
  assumes "u_inPage s = Some p" "u_currentClasses s = Some r" "u_outPage s \<noteq> Some p"
  shows "removeAll (in_class r) (classList (store (state_of (u_beginAnimation s)) p)) =
           removeAll (in_class r) (classList (store s p))"
    and "u_outPage s = Some q \<Longrightarrow>
           removeAll (out_class r) (classList (store (state_of (u_beginAnimation s)) q)) =
           removeAll (out_class r) (classList (store s q))"
proof -
  show "removeAll (in_class r) (classList (store (state_of (u_beginAnimation s)) p)) =
           removeAll (in_class r) (classList (store s p))"
    using assms by (cases "u_outPage s") (auto simp add: u_beginAnimation_first u_beginAnimation_both)
  show "removeAll (out_class r) (classList (store (state_of (u_beginAnimation s)) q)) =
           removeAll (out_class r) (classList (store s q))"
    if "u_outPage s = Some q"
    using assms that by (auto simp add: u_beginAnimation_both)
qed

lemma to_page2_eq:
  "to_page2 =
     main_demo\<lparr>u_inPage := Some 4, u_outPage := Some 3, u_selected := Str ''page2'',
       u_currentClasses := Some fade, u_animating := True,
       listeners := [(4, InAnimationBound), (3, OutAnimationBound)],
       u_outAnimationEnded := False, u_inAnimationEnded := False,
       store := main_store
         (3 := \<lparr>attributes = [''name'' \<mapsto> ''page1'', ''active'' \<mapsto> ''true''],
                classList = [''page-fadeOut'']\<rparr>,
          4 := \<lparr>attributes = [''name'' \<mapsto> ''page2'', ''active'' \<mapsto> ''true''],
                classList = [''page-fadeIn'']\<rparr>)\<rparr>"
  by (simp add: to_page2_def on_page1_eq run_defs sample_defs read_defs)

lemma at_rest_on_page1: "at_rest on_page1"
  by (simp add: at_rest_def selected_ok_def on_page1_eq sample_defs read_defs)

lemma at_rest_main_demo: "at_rest main_demo"
  by (simp add: at_rest_def selected_ok_def sample_defs read_defs)

lemma select_on_page1: "select on_page1 (Str ''page2'') = Returned to_page2"
  by (simp add: to_page2_eq on_page1_eq run_defs sample_defs read_defs)

lemma select_main_demo: "select main_demo (Str ''page1'') = Returned mid_animation"
  by (simp add: mid_animation_eq run_defs sample_defs read_defs)

text \<open>
  C2. A transition started from rest by \<^verbatim>\<open>select\<close>, with inbound page \<open>p\<close>: its
  outbound page is the item that was selected. If there is an outbound page \<open>q\<close>, then as
  long as the event has not reached both \<open>p\<close> and \<open>q\<close>, \<^verbatim>\<open>isAnimating\<close> is true and
  no class or attribute of any element has changed. If there is none, the outbound leg is
  marked as ended at the start, the same holds as long as the event has not reached \<open>p\<close>,
  and the transition is settled once it has.
\<close>

theorem transition_waits_for_both_legs:
  assumes "at_rest s0" "select s0 next = Returned s1" "u_animating s1" "u_inPage s1 = Some p"
  shows "u_outPage s1 = get_selectedItem s0 \<and>
    (u_outPage s1 = Some q \<and> (p \<notin> set xs \<or> q \<notin> set xs) \<longrightarrow>
       get_isAnimating (fire_all s1 xs) \<and> store (fire_all s1 xs) = store s1) \<and>
    (u_outPage s1 = None \<longrightarrow>
       u_outAnimationEnded s1 \<and>
       (p \<notin> set xs \<longrightarrow> get_isAnimating (fire_all s1 xs) \<and> store (fire_all s1 xs) = store s1) \<and>
       (p \<in> set xs \<longrightarrow> \<not> get_isAnimating (fire_all s1 xs)))"
proof -
  from select_started [OF assms(1-3)] obtain p' r
    where run: "running s1 p' (get_selectedItem s0) r" by blast
  with assms(4) have p': "p' = p" by (simp add: running_def)
  from run have out: "u_outPage s1 = get_selectedItem s0" by (simp add: running_def)
  from run have an: "u_animating s1" by (simp add: running_def)
  note tr = fire_all_running [OF run, unfolded p']
  have "get_isAnimating (fire_all s1 xs) \<and> store (fire_all s1 xs) = store s1"
    if "u_outPage s1 = Some q" "p \<notin> set xs \<or> q \<notin> set xs"
    using that out an by (auto simp add: tr progress_def get_isAnimating_def)
  moreover have "u_outAnimationEnded s1" if "u_outPage s1 = None"
    using that out run by (simp add: running_def)
  moreover have "get_isAnimating (fire_all s1 xs) \<and> store (fire_all s1 xs) = store s1"
    if "u_outPage s1 = None" "p \<notin> set xs"
    using that out an by (auto simp add: tr progress_def get_isAnimating_def)
  moreover have "\<not> get_isAnimating (fire_all s1 xs)" if "u_outPage s1 = None" "p \<in> set xs"
    using that out by (auto simp add: tr progress_def get_isAnimating_def)
  ultimately show ?thesis using out by blast
qed

theorem transition_waits_for_both_legs_witness:
  "at_rest on_page1 \<and> select on_page1 (Str ''page2'') = Returned to_page2 \<and>
   u_animating to_page2 \<and> u_inPage to_page2 = Some 4 \<and> u_outPage to_page2 = Some 3 \<and>
   get_selectedItem on_page1 = Some 3 \<and>
   get_isAnimating (fire_all to_page2 [4, 0, 4]) \<and>
   store (fire_all to_page2 [4, 0, 4]) = store to_page2 \<and>
   at_rest main_demo \<and> select main_demo (Str ''page1'') = Returned mid_animation \<and>
   u_animating mid_animation \<and> u_inPage mid_animation = Some 3 \<and>
   u_outPage mid_animation = None \<and> u_outAnimationEnded mid_animation \<and>
   \<not> get_isAnimating (fire_all mid_animation [3])"
proof -
  have a: "u_animating to_page2" "u_inPage to_page2 = Some 4"
    by (simp_all add: to_page2_eq)
  have b: "u_animating mid_animation" "u_inPage mid_animation = Some 3"
    by (simp_all add: mid_animation_eq)
  have o: "u_outPage to_page2 = Some 3" "u_outPage mid_animation = None"
    by (simp_all add: to_page2_eq mid_animation_eq)
  have x: "(4::nat) \<notin> set [4, 0, 4] \<or> (3::nat) \<notin> set [4, 0, 4]" "(3::nat) \<in> set [3]"
    by simp_all
  show ?thesis
    using transition_waits_for_both_legs [OF at_rest_on_page1 select_on_page1 a, of 3 "[4, 0, 4]"]
      transition_waits_for_both_legs [OF at_rest_main_demo select_main_demo b, of 0 "[3]"]
      at_rest_on_page1 select_on_page1 at_rest_main_demo select_main_demo a b o x
    by simp
qed

lemma all_fired_running:
  "running s p q r \<Longrightarrow>
   all_fired s xs = (p \<in> set xs \<and> (case q of None \<Rightarrow> True | Some q' \<Rightarrow> q' \<in> set xs))"
  by (simp add: all_fired_def running_def)

lemma progress_all_fired:
  "running s p q r \<Longrightarrow> all_fired s xs \<Longrightarrow> progress s p q r xs = settled s p q r"
  by (cases q) (simp_all add: all_fired_running progress_def)

text \<open>
  C6. A transition started from rest by \<^verbatim>\<open>select\<close>, with inbound page \<open>p\<close> and
  rule \<open>r\<close>: \<open>r\<close> is the rule matched for the transition; at the start \<open>p\<close> carries
  the in class of \<open>r\<close> and \<^verbatim>\<open>active="true"\<close>, and the outbound page, the item
  selected before, carries the out class. Once the event has reached both pages, the
  transition is settled: \<open>p\<close> has lost the in class and kept \<^verbatim>\<open>active\<close>, the
  outbound page has lost \<^verbatim>\<open>active\<close> and the out class; each of the two pages
  has the classes it had before the call, without the class of its leg.
\<close>

theorem transition_marks_pages:
  assumes "at_rest s0" "select s0 next = Returned s1" "u_animating s1" "u_inPage s1 = Some p"
    "u_currentClasses s1 = Some r"
  shows "u_animationClasses s0 next
           (prev_id (s0\<lparr>u_outPage := get_selectedItem s0\<rparr>) (is_string next)) = Inr (Some r) \<and>
    u_outPage s1 = get_selectedItem s0 \<and>
    in_class r \<in> set (classList (store s1 p)) \<and>
    attributes (store s1 p) ''active'' = Some ''true'' \<and>
    (u_outPage s1 = Some q \<longrightarrow> out_class r \<in> set (classList (store s1 q))) \<and>
    (all_fired s1 xs \<longrightarrow>
       \<not> get_isAnimating (fire_all s1 xs) \<and>
       in_class r \<notin> set (classList (store (fire_all s1 xs) p)) \<and>
       classList (store (fire_all s1 xs) p) = removeAll (in_class r) (classList (store s0 p)) \<and>
       attributes (store (fire_all s1 xs) p) ''active'' = Some ''true'' \<and>
       (u_outPage s1 = Some q \<longrightarrow>
          attributes (store (fire_all s1 xs) q) ''active'' = None \<and>
          out_class r \<notin> set (classList (store (fire_all s1 xs) q)) \<and>
          classList (store (fire_all s1 xs) q) =
            removeAll (out_class r) (classList (store s0 q))))"
proof -
  from select_started [OF assms(1-3)] obtain p' r'
    where run: "running s1 p' (get_selectedItem s0) r'"
      and rule: "u_animationClasses s0 next
           (prev_id (s0\<lparr>u_outPage := get_selectedItem s0\<rparr>) (is_string next)) = Inr (Some r')"
      and s1: "s1 = state_of (u_beginAnimation (prepared s0 (is_string next) next p' (Some r')))"
    by blast
  from run assms(4,5) have eq: "p' = p" "r' = r" by (simp_all add: running_def)
  note run = run [unfolded eq] and rule = rule [unfolded eq] and s1 = s1 [unfolded eq]
  let ?s = "prepared s0 (is_string next) next p (Some r)"
  from run have out: "u_outPage s1 = get_selectedItem s0" and ne: "get_selectedItem s0 \<noteq> Some p"
    by (simp_all add: running_def)
  have pre: "u_inPage ?s = Some p" "u_currentClasses ?s = Some r" "u_outPage ?s \<noteq> Some p"
    using ne by simp_all
  have start: "in_class r \<in> set (classList (store s1 p))"
    "attributes (store s1 p) ''active'' = Some ''true''"
    unfolding s1 by (rule begun_store [OF pre])+
  have start_out: "out_class r \<in> set (classList (store s1 q))" if "u_outPage s1 = Some q"
    unfolding s1 using that out by (intro begun_store(3) [OF pre]) simp
  have cls: "removeAll (in_class r) (classList (store s1 p)) =
      removeAll (in_class r) (classList (store s0 p))"
    unfolding s1 using begun_classes(1) [OF pre] by simp
  have cls_out: "removeAll (out_class r) (classList (store s1 q)) =
      removeAll (out_class r) (classList (store s0 q))" if "u_outPage s1 = Some q"
    unfolding s1 using that out begun_classes(2) [OF pre, of q] by simp
  have fin: "\<not> get_isAnimating (fire_all s1 xs) \<and>
       in_class r \<notin> set (classList (store (fire_all s1 xs) p)) \<and>
       classList (store (fire_all s1 xs) p) = removeAll (in_class r) (classList (store s0 p)) \<and>
       attributes (store (fire_all s1 xs) p) ''active'' = Some ''true'' \<and>
       (u_outPage s1 = Some q \<longrightarrow>
          attributes (store (fire_all s1 xs) q) ''active'' = None \<and>
          out_class r \<notin> set (classList (store (fire_all s1 xs) q)) \<and>
          classList (store (fire_all s1 xs) q) =
            removeAll (out_class r) (classList (store s0 q)))"
    if "all_fired s1 xs"
  proof -
    have f: "fire_all s1 xs = settled s1 p (get_selectedItem s0) r"
      using fire_all_running [OF run] progress_all_fired [OF run that] by simp
    have "u_outPage s1 = Some q \<Longrightarrow> q \<noteq> p"
      using out ne by auto
    then show ?thesis
      using settled_inbound [OF ne, of s1 r] start settled_outbound [of q p s1 r] out cls cls_out
      by (auto simp add: f get_isAnimating_def)
  qed
  from rule out start start_out fin show ?thesis by blast
qed

theorem transition_marks_pages_witness:
  "at_rest on_page1 \<and> select on_page1 (Str ''page2'') = Returned to_page2 \<and>
   u_animating to_page2 \<and> u_inPage to_page2 = Some 4 \<and> u_currentClasses to_page2 = Some fade \<and>
   u_outPage to_page2 = Some 3 \<and> all_fired to_page2 [3, 4] \<and>
   ''page-fadeIn'' \<in> set (classList (store to_page2 4)) \<and>
   ''page-fadeOut'' \<in> set (classList (store to_page2 3)) \<and>
   \<not> get_isAnimating (fire_all to_page2 [3, 4]) \<and>
   ''page-fadeIn'' \<notin> set (classList (store (fire_all to_page2 [3, 4]) 4)) \<and>
   classList (store (fire_all to_page2 [3, 4]) 4) = [] \<and>
   classList (store (fire_all to_page2 [3, 4]) 3) = [] \<and>
   attributes (store (fire_all to_page2 [3, 4]) 4) ''active'' = Some ''true'' \<and>
   attributes (store (fire_all to_page2 [3, 4]) 3) ''active'' = None \<and>
   ''page-fadeOut'' \<notin> set (classList (store (fire_all to_page2 [3, 4]) 3))"
proof -
  have a: "u_animating to_page2" "u_inPage to_page2 = Some 4"
    "u_currentClasses to_page2 = Some fade"
    by (simp_all add: to_page2_eq)
  have o: "u_outPage to_page2 = Some 3" "all_fired to_page2 [3, 4]"
    by (simp_all add: to_page2_eq all_fired_def)
  have c: "in_class fade = ''page-fadeIn''" "out_class fade = ''page-fadeOut''"
    "classList (store on_page1 4) = []" "classList (store on_page1 3) = []"
    by (simp_all add: fade_def on_page1_eq main_store_def named_def)
  show ?thesis
    using transition_marks_pages [OF at_rest_on_page1 select_on_page1 a, of 3 "[3, 4]"]
      at_rest_on_page1 select_on_page1 a o
    by (simp add: c)
qed

text \<open>
  C7. A transition started from rest by \<^verbatim>\<open>select\<close>, with inbound page \<open>p\<close>: at the
  start the inbound callback is registered on \<open>p\<close> and, if there is an outbound page, the
  outbound callback on it, and nothing else. No delivery of the event adds a registration;
  the registration on a page is gone once the event has reached that page; and none is left
  once the event has reached both pages.
\<close>

theorem transition_listeners:
  assumes "at_rest s0" "select s0 next = Returned s1" "u_animating s1" "u_inPage s1 = Some p"
  shows "listeners s1 =
      (p, InAnimationBound) #
        (case u_outPage s1 of None \<Rightarrow> [] | Some q' \<Rightarrow> [(q', OutAnimationBound)]) \<and>
    set (listeners (fire_all s1 xs)) \<subseteq> set (listeners s1) \<and>
    (p \<in> set xs \<longrightarrow> (p, InAnimationBound) \<notin> set (listeners (fire_all s1 xs))) \<and>
    (u_outPage s1 = Some q \<and> q \<in> set xs \<longrightarrow>
       (q, OutAnimationBound) \<notin> set (listeners (fire_all s1 xs))) \<and>
    (all_fired s1 xs \<longrightarrow> listeners (fire_all s1 xs) = [])"
proof -
  from select_started [OF assms(1-3)] obtain p' r
    where run: "running s1 p' (get_selectedItem s0) r" by blast
  with assms(4) have p': "p' = p" by (simp add: running_def)
  note run = run [unfolded p']
  from run have out: "u_outPage s1 = get_selectedItem s0" by (simp add: running_def)
  from run have l: "listeners s1 =
      (p, InAnimationBound) #
        (case u_outPage s1 of None \<Rightarrow> [] | Some q' \<Rightarrow> [(q', OutAnimationBound)])"
    by (simp add: running_def)
  note tr = fire_all_running [OF run]
  have sub: "set (listeners (fire_all s1 xs)) \<subseteq> set (listeners s1)"
    by (cases "get_selectedItem s0") (auto simp add: tr progress_def)
  have gone_in: "(p, InAnimationBound) \<notin> set (listeners (fire_all s1 xs))" if "p \<in> set xs"
    using that by (cases "get_selectedItem s0") (auto simp add: tr progress_def)
  have gone_out: "(q, OutAnimationBound) \<notin> set (listeners (fire_all s1 xs))"
    if "u_outPage s1 = Some q" "q \<in> set xs"
    using that out by (auto simp add: tr progress_def)
  have fin: "listeners (fire_all s1 xs) = []" if "all_fired s1 xs"
    using progress_all_fired [OF run that] by (simp add: tr)
  from l sub gone_in gone_out fin show ?thesis by blast
qed

theorem transition_listeners_witness:
  "at_rest on_page1 \<and> select on_page1 (Str ''page2'') = Returned to_page2 \<and>
   u_animating to_page2 \<and> u_inPage to_page2 = Some 4 \<and> u_outPage to_page2 = Some 3 \<and>
   listeners to_page2 = [(4, InAnimationBound), (3, OutAnimationBound)] \<and>
   (4, InAnimationBound) \<notin> set (listeners (fire_all to_page2 [3, 4])) \<and>
   (3, OutAnimationBound) \<notin> set (listeners (fire_all to_page2 [3, 4])) \<and>
   all_fired to_page2 [3, 4] \<and> listeners (fire_all to_page2 [3, 4]) = []"
proof -
  have a: "u_animating to_page2" "u_inPage to_page2 = Some 4"
    by (simp_all add: to_page2_eq)
  have o: "u_outPage to_page2 = Some 3" "all_fired to_page2 [3, 4]"
    by (simp_all add: to_page2_eq all_fired_def)
  show ?thesis
    using transition_listeners [OF at_rest_on_page1 select_on_page1 a, of "[3, 4]" 3]
      at_rest_on_page1 select_on_page1 a o
    by simp
qed

text \<open>
  C9. A transition started from rest by \<^verbatim>\<open>select\<close>, with inbound page \<open>p\<close>: an
  element that is neither \<open>p\<close> nor the outbound page has, at the start and after every
  delivery sequence of the event, the classes and attributes it had before the call.
\<close>

theorem transition_frame:
  assumes "at_rest s0" "select s0 next = Returned s1" "u_animating s1" "u_inPage s1 = Some p"
    "n \<noteq> p" "u_outPage s1 \<noteq> Some n"
  shows "store s1 n = store s0 n \<and> store (fire_all s1 xs) n = store s0 n"
proof -
  from select_started [OF assms(1-3)] obtain p' r
    where run: "running s1 p' (get_selectedItem s0) r"
      and s1: "s1 = state_of (u_beginAnimation (prepared s0 (is_string next) next p' (Some r)))"
    by blast
  with assms(4) have p': "p' = p" by (simp add: running_def)
  note run = run [unfolded p'] and s1 = s1 [unfolded p']
  let ?s = "prepared s0 (is_string next) next p (Some r)"
  from run have out: "u_outPage s1 = get_selectedItem s0" and ne: "get_selectedItem s0 \<noteq> Some p"
    by (simp_all add: running_def)
  have pre: "u_inPage ?s = Some p" "u_currentClasses ?s = Some r" "u_outPage ?s \<noteq> Some p"
    using ne by simp_all
  have "u_outPage ?s \<noteq> Some n" using assms(6) out by simp
  from begun_store(4) [OF pre assms(5) this] have a: "store s1 n = store s0 n"
    by (simp add: s1)
  have "store (fire_all s1 xs) n = store s1 n"
    using assms(5,6) out by (simp add: fire_all_running [OF run] progress_other)
  with a show ?thesis by simp
qed

theorem transition_frame_witness:
  "at_rest on_page1 \<and> select on_page1 (Str ''page2'') = Returned to_page2 \<and>
   u_animating to_page2 \<and> u_inPage to_page2 = Some 4 \<and> (5::nat) \<noteq> 4 \<and>
   u_outPage to_page2 \<noteq> Some 5 \<and>
   store to_page2 5 = store on_page1 5 \<and>
   store (fire_all to_page2 [3, 5, 4]) 5 = store on_page1 5"
proof -
  have a: "u_animating to_page2" "u_inPage to_page2 = Some 4"
    by (simp_all add: to_page2_eq)
  have o: "(5::nat) \<noteq> 4" "u_outPage to_page2 \<noteq> Some 5"
    by (simp_all add: to_page2_eq)
  show ?thesis
    using transition_frame [OF at_rest_on_page1 select_on_page1 a o, of "[3, 5, 4]"]
      at_rest_on_page1 select_on_page1 a o
    by simp
qed

subsection \<open>The element returns to rest\<close>

text \<open>
  \<open>at_rest\<close> holds after the constructor, is kept by every call of the setter that does
  not start a transition, and holds again once a transition has settled.
\<close>

lemma at_rest_constructed: "at_rest (constructed ps st)"
  by (simp add: at_rest_def selected_ok_def constructed_def)

lemma at_rest_internal:
  "at_rest (s\<lparr>u_inPage := x, u_outPage := y\<rparr>) = at_rest s"
  by (simp add: at_rest_def selected_ok_def)

lemma at_rest_select_returned:
  assumes "at_rest s0" "select s0 next = Returned s1" "\<not> u_animating s1"
  shows "at_rest s1"
proof -
  from assms(1) have idle: "\<not> u_animating s0" by (simp add: at_rest_def)
  from assms(2) have ret: "set_selected s0 next = Returned s1" by (simp add: select_def)
  obtain tbl where tbl: "animationClasses s0 = Some tbl"
    using ret by (cases "animationClasses s0") (simp_all add: set_selected_unset)
  obtain m where mode: "u_isStringMode next = Inr m"
    using ret set_selected_invalid [OF tbl idle] by (cases "u_isStringMode next") auto
  have ok: "m \<longrightarrow> attr_set s0"
    using ret set_selected_no_attr [OF tbl idle, of "next"] mode by auto
  obtain p where p: "resolve s0 m next = Some p"
    using ret set_selected_no_page [OF tbl idle mode ok] by (cases "resolve s0 m next") auto
  show ?thesis
  proof (cases "get_selectedItem s0 = Some p")
    case True
    from set_selected_same_page [OF tbl idle mode ok p True] ret assms(1)
    show ?thesis by (auto simp add: at_rest_internal)
  next
    case False
    obtain ro where ro: "u_animationClasses s0 next
        (prev_id (s0\<lparr>u_outPage := get_selectedItem s0\<rparr>) m) = Inr ro"
      using u_animationClasses_total [OF tbl] by blast
    have eq: "set_selected s0 next = u_beginAnimation (prepared s0 m next p ro)"
      by (rule set_selected_other_page [OF tbl idle mode ok p False ro])
    have "u_animating (state_of (u_beginAnimation (prepared s0 m next p ro)))"
      by (cases "prepared s0 m next p ro" rule: u_beginAnimation_cases;
          simp add: u_beginAnimation_no_page u_beginAnimation_no_rule_first
            u_beginAnimation_no_rule_both u_beginAnimation_first u_beginAnimation_both)
    with ret eq assms(3) show ?thesis by simp
  qed
qed

lemma at_rest_settled:
  assumes "at_rest s0" "select s0 next = Returned s1" "u_animating s1" "all_fired s1 xs"
  shows "at_rest (fire_all s1 xs)"
proof -
  from select_started [OF assms(1-3)] obtain p r
    where run: "running s1 p (get_selectedItem s0) r"
      and s1: "s1 = state_of (u_beginAnimation (prepared s0 (is_string next) next p (Some r)))"
      and res: "resolve s0 (is_string next) next = Some p"
    by blast
  have f: "fire_all s1 xs = settled s1 p (get_selectedItem s0) r"
    using fire_all_running [OF run] progress_all_fired [OF run assms(4)] by simp
  have mode: "u_isStringMode next = Inr (is_string next)" "is_string next \<longrightarrow> attr_set s0"
    using assms(1,2) res
    by (auto simp add: u_isStringMode_cases select_def set_selected_def at_rest_def resolve_def
        children_at_def split: if_splits jsval.splits)
  have "selected_ok (prepared s0 (is_string next) next p (Some r))"
    by (rule selected_ok_prepared [OF mode])
  then have "selected_ok s1"
    unfolding s1 selected_ok_def
    by (simp add: u_beginAnimation_keeps attr_set_def)
  then have "selected_ok (settled s1 p (get_selectedItem s0) r)"
    by (cases "get_selectedItem s0") (simp_all add: selected_ok_def settled_def Let_def attr_set_def)
  then show ?thesis
    by (simp add: f at_rest_def settled_def Let_def split: option.splits)
qed

end
